theory Spec2Isabelle
  imports
    Main
    "HOL-Library.Multiset"
    "HOL-Library.List_Lexorder"
    "HOL-Library.Char_ord"
begin

section \<open>Python values used by the two scripts\<close>

text \<open>
  Text is a \<^typ>\<open>string\<close>: a list of 8-bit characters read as code points below 256.
  With \<open>List_Lexorder\<close> and \<open>Char_ord\<close> the order on \<^typ>\<open>string\<close> is the
  lexicographic order by code point, which is the order of Python's \<open>sorted\<close> on \<open>str\<close>.

  Exceptions are values. \<open>exn\<close> lists the subclasses of \<open>Exception\<close> that the scripts
  or the libraries they call can raise; \<open>OtherError\<close> stands for any further subclass.
\<close>

datatype exn =
    ValueError
  | IndexError
  | FileNotFoundError
  | VoidRaceError
  | RequestException
  | KeyError
  | ParserError
  | SameFileError
  | FileExistsError
  | NotADirectoryError
  | IsADirectoryError
  | OtherError string

type_synonym path = "string list"

subsection \<open>\<open>str.split(sep)\<close>, \<open>str.splitlines()\<close>, \<open>str.replace\<close>, \<open>str.join\<close>\<close>

text \<open>
  \<open>s.split(sep)\<close> with a one-character separator: the pieces between the separators;
  never the empty list (\<open>''.split('/') == ['']\<close>).
\<close>

fun str_split :: "char \<Rightarrow> string \<Rightarrow> string list" where
  "str_split sep [] = [Nil]"
| "str_split sep (c # cs) =
     (if c = sep then [] # str_split sep cs
      else (case str_split sep cs of
              [] \<Rightarrow> [c] # Nil
            | p # ps \<Rightarrow> (c # p) # ps))"

text \<open>
  The line boundaries of \<open>str.splitlines()\<close> among the code points below 256:
  LF, CR, VT, FF, FS, GS, RS and NEL; CR LF counts as one boundary.
\<close>

definition is_linebreak :: "char \<Rightarrow> bool" where
  "is_linebreak c \<longleftrightarrow>
     c \<in> set [CHR 0x0A, CHR 0x0D, CHR 0x0B, CHR 0x0C, CHR 0x1C, CHR 0x1D, CHR 0x1E, CHR 0x85]"

fun splitlines_from :: "string \<Rightarrow> string \<Rightarrow> string list" where
  "splitlines_from cur [] = (if cur = [] then [] else [rev cur])"
| "splitlines_from cur [c] =
     (if is_linebreak c then [rev cur] else [rev (c # cur)])"
| "splitlines_from cur (c # d # cs) =
     (if c = CHR 0x0D \<and> d = CHR 0x0A then rev cur # splitlines_from [] cs
      else if is_linebreak c then rev cur # splitlines_from [] (d # cs)
      else splitlines_from (c # cur) (d # cs))"

definition splitlines :: "string \<Rightarrow> string list" where
  "splitlines s = splitlines_from [] s"

text \<open>\<open>s.replace(old, new)\<close> for a one-character \<open>old\<close>.\<close>

definition str_replace :: "char \<Rightarrow> string \<Rightarrow> string \<Rightarrow> string" where
  "str_replace old new s = concat (map (\<lambda>c. if c = old then new else [c]) s)"

fun str_join :: "string \<Rightarrow> string list \<Rightarrow> string" where
  "str_join sep [] = []"
| "str_join sep [x] = x"
| "str_join sep (x # y # ys) = x @ sep @ str_join sep (y # ys)"

subsection \<open>Files and \<open>pathlib\<close>\<close>

text \<open>
  A resolved path is the list of its \<open>parts\<close>. The file system maps the paths of the
  regular files to their text.
\<close>

type_synonym files = "path \<rightharpoonup> string"

definition path_exists :: "files \<Rightarrow> path \<Rightarrow> bool" where
  "path_exists fs p \<longleftrightarrow> fs p \<noteq> None"

definition read_text :: "files \<Rightarrow> path \<Rightarrow> exn + string" where
  "read_text fs p = (case fs p of None \<Rightarrow> Inl FileNotFoundError | Some t \<Rightarrow> Inr t)"

text \<open>
  \<open>PurePath.name\<close>: the final component, empty when there is none (the empty path and
  the root, whose only part is the anchor \<open>/\<close>).
\<close>

definition path_name :: "path \<Rightarrow> string" where
  "path_name p = (if p = [] \<or> p = [''/''] then [] else last p)"

text \<open>\<open>str.rfind('.')\<close>: the index of the last dot, if any.\<close>

fun rfind_dot :: "string \<Rightarrow> nat option" where
  "rfind_dot [] = None"
| "rfind_dot (c # cs) =
     (case rfind_dot cs of
        Some i \<Rightarrow> Some (Suc i)
      | None \<Rightarrow> if c = CHR ''.'' then Some 0 else None)"

text \<open>
  \<open>PurePath.suffix\<close>: \<open>name[i:]\<close> for the last dot at \<open>0 < i < len(name) - 1\<close>,
  otherwise the empty string.
\<close>

definition suffix :: "path \<Rightarrow> string" where
  "suffix p =
     (let name = path_name p in
      case rfind_dot name of
        None \<Rightarrow> []
      | Some i \<Rightarrow> if 0 < i \<and> Suc i < length name then drop i name else [])"

text \<open>
  \<open>PurePath.with_suffix(suffix)\<close>: \<open>ValueError\<close> for a suffix that holds a separator,
  that is non-empty without a leading dot or that is a lone dot, and for a path with an
  empty name; otherwise the old suffix of the name is replaced.
\<close>

definition with_suffix :: "path \<Rightarrow> string \<Rightarrow> exn + path" where
  "with_suffix p sfx =
     (if CHR ''/'' \<in> set sfx then Inl ValueError
      else if (sfx \<noteq> [] \<and> hd sfx \<noteq> CHR ''.'') \<or> sfx = ''.'' then Inl ValueError
      else
        let name = path_name p in
        if name = [] then Inl ValueError
        else
          let old_suffix = suffix p;
              name' = (if old_suffix = [] then name @ sfx
                       else take (length name - length old_suffix) name @ sfx)
          in Inr (butlast p @ [name']))"

section \<open>\<open>scripts/retry_failed.py\<close>\<close>

subsection \<open>\<open>extract_dates\<close>\<close>

text \<open>The body of the loop over the lines: \<open>dates\<close> is the set built so far.\<close>

definition extract_dates_line :: "string set \<Rightarrow> string \<Rightarrow> string set" where
  "extract_dates_line dates line =
     (let parts = str_split CHR ''/'' line in
      if length parts < 2 then dates
      else
        let date_part = parts ! (length parts - 2) in
        if length (str_split CHR ''-'' date_part) = 3 then insert date_part dates
        else dates)"

definition extract_dates :: "files \<Rightarrow> path \<Rightarrow> exn + string list" where
  "extract_dates fs log_path =
     (case read_text fs log_path of
        Inl e \<Rightarrow> Inl e
      | Inr text \<Rightarrow>
          Inr (sorted_list_of_set
                 (fold (\<lambda>line dates. extract_dates_line dates line) (splitlines text) {})))"

subsection \<open>Effects, messages and outcomes\<close>

text \<open>
  Each \<open>print\<close> of the scripts is a message, each action on the outside world an effect.
  A \<open>world\<close> is the file system together with the effects in the order they happened.
\<close>

datatype msg =
    LogNotFound path
  | RegionNotInferred
  | NoDatesFound
  | BackedUp path
  | Retrying string
  | SubrunFailed string int
  | RetryComplete
  | GettingBetfair
  | NoRacesFound
  | Scraping nat int
  | Fetching nat nat string
  | RequestFailed exn
  | SkippingVoid
  | ParseFailed exn
  | SkippingNonFlat
  | SkippingNonJumps
  | Finished path

text \<open>
  The command line of a sub-run,
  \<open>[sys.executable, rpscrape, '-d', date_arg, '-r', region, '-j', str(jobs)]\<close>,
  by its three varying arguments.
\<close>

record cmd =
  date_arg :: string
  region_arg :: string
  jobs_arg :: int

datatype effect =
    Print msg
  | CopyFile path path
  | WriteText path string
  | SubprocessRun cmd
  | Mkdir path
  | BetfairBuild "string list"
  | OpenWrite path
  | Write path string
  | Executor int
  | Submit nat string

record world =
  files :: files
  trace :: "effect list"

text \<open>
  How a call ends: a normal return, \<open>sys.exit(n)\<close>, or an exception nobody caught.
  The interpreter exits with status 1 on an uncaught exception.
\<close>

datatype outcome = Returned | SysExit int | Uncaught exn

fun exit_status :: "outcome \<Rightarrow> int" where
  "exit_status Returned = 0"
| "exit_status (SysExit n) = n"
| "exit_status (Uncaught e) = 1"

definition emit :: "effect \<Rightarrow> 'a world_scheme \<Rightarrow> 'a world_scheme" where
  "emit e w = w\<lparr>trace := trace w @ [e]\<rparr>"

text \<open>\<open>shutil.copyfile(src, dst)\<close>: the bytes of \<open>src\<close> become the content of \<open>dst\<close>.\<close>

definition copyfile :: "path \<Rightarrow> path \<Rightarrow> world \<Rightarrow> exn + world" where
  "copyfile src dst w =
     (if src = dst then Inl SameFileError
      else case files w src of
        None \<Rightarrow> Inl FileNotFoundError
      | Some t \<Rightarrow> Inr (emit (CopyFile src dst) (w\<lparr>files := (files w)(dst \<mapsto> t)\<rparr>)))"

text \<open>\<open>Path.write_text(data)\<close>: the file holds exactly \<open>data\<close> afterwards.\<close>

definition write_text :: "path \<Rightarrow> string \<Rightarrow> world \<Rightarrow> world" where
  "write_text p t w = emit (WriteText p t) (w\<lparr>files := (files w)(p \<mapsto> t)\<rparr>)"

subsection \<open>\<open>main\<close> of the retry driver\<close>

text \<open>
  \<open>args_log\<close> is the log path after \<open>expanduser().resolve()\<close>; \<open>args_region\<close> is
  \<open>None\<close> when \<open>--region\<close> is not given; \<open>args_jobs\<close> defaults to 6 in the parser.
\<close>

record args =
  args_log :: path
  args_region :: "string option"
  args_jobs :: int

text \<open>\<open>tuple.index(x)\<close>: the first position of \<open>x\<close>; \<open>None\<close> stands for its \<open>ValueError\<close>.\<close>

fun index_of :: "'a \<Rightarrow> 'a list \<Rightarrow> nat option" where
  "index_of x [] = None"
| "index_of x (y # ys) =
     (if x = y then Some 0
      else case index_of x ys of None \<Rightarrow> None | Some i \<Rightarrow> Some (Suc i))"

text \<open>
  Lines 44 to 50: a given region is kept; otherwise the part after the first \<open>dates\<close>
  part of the log path. The \<open>ValueError\<close> of \<open>index\<close> is caught and leaves the region
  \<open>None\<close>; the \<open>IndexError\<close> of the subscript, when \<open>dates\<close> is the last part, is not.
\<close>

definition resolve_region :: "string option \<Rightarrow> path \<Rightarrow> exn + string option" where
  "resolve_region region log_path =
     (case region of
        Some r \<Rightarrow> Inr (Some r)
      | None \<Rightarrow>
          (case index_of ''dates'' log_path of
             None \<Rightarrow> Inr None
           | Some i \<Rightarrow>
               if Suc i < length log_path then Inr (Some (log_path ! Suc i))
               else Inl IndexError))"

text \<open>
  The loop over the recovered dates. \<open>subprocess_run\<close> is the sub-run: from the command
  and the file system it finds, its return code and the file system it leaves.
\<close>

fun retry_dates ::
  "(cmd \<Rightarrow> files \<Rightarrow> int \<times> files) \<Rightarrow> string \<Rightarrow> int \<Rightarrow> string list \<Rightarrow> world \<Rightarrow> world"
where
  "retry_dates subprocess_run region jobs [] w = w"
| "retry_dates subprocess_run region jobs (d # ds) w =
     (let date_arg' = str_replace CHR ''-'' ''/'' d;
          w1 = emit (Print (Retrying d)) w;
          c = \<lparr>date_arg = date_arg', region_arg = region, jobs_arg = jobs\<rparr>;
          result = subprocess_run c (files w1);
          w2 = emit (SubprocessRun c) (w1\<lparr>files := snd result\<rparr>);
          w3 = (if fst result \<noteq> 0 then emit (Print (SubrunFailed d (fst result))) w2 else w2)
      in retry_dates subprocess_run region jobs ds w3)"

definition main :: "(cmd \<Rightarrow> files \<Rightarrow> int \<times> files) \<Rightarrow> args \<Rightarrow> files \<Rightarrow> outcome \<times> world" where
  "main subprocess_run a fs =
     (let w0 = \<lparr>files = fs, trace = []\<rparr>;
          log_path = args_log a
      in
      if \<not> path_exists fs log_path then (SysExit 1, emit (Print (LogNotFound log_path)) w0)
      else
        case resolve_region (args_region a) log_path of
          Inl e \<Rightarrow> (Uncaught e, w0)
        | Inr None \<Rightarrow> (SysExit 1, emit (Print RegionNotInferred) w0)
        | Inr (Some region) \<Rightarrow>
            if region = [] then (SysExit 1, emit (Print RegionNotInferred) w0)
            else
              case extract_dates fs log_path of
                Inl e \<Rightarrow> (Uncaught e, w0)
              | Inr dates \<Rightarrow>
                  if dates = [] then (SysExit 0, emit (Print NoDatesFound) w0)
                  else
                    let jobs = max 1 (min 10 (args_jobs a)) in
                    case with_suffix log_path (suffix log_path @ ''.bak'') of
                      Inl e \<Rightarrow> (Uncaught e, w0)
                    | Inr backup_path \<Rightarrow>
                        (case copyfile log_path backup_path w0 of
                           Inl e \<Rightarrow> (Uncaught e, w0)
                         | Inr w1 \<Rightarrow>
                             let w2 = emit (Print (BackedUp backup_path)) w1;
                                 w3 = write_text log_path [] w2;
                                 w4 = retry_dates subprocess_run region jobs dates w3
                             in (Returned, emit (Print RetryComplete) w4)))"

text \<open>
  The resolved path of a regular file ends in a non-empty component, and no component
  holds the separator.
\<close>

definition file_path_ok :: "path \<Rightarrow> bool" where
  "file_path_ok p \<longleftrightarrow> path_name p \<noteq> [] \<and> CHR ''/'' \<notin> set (path_name p)"

text \<open>The commands of the sub-runs launched in a trace, in order.\<close>

definition subruns :: "effect list \<Rightarrow> cmd list" where
  "subruns t = concat (map (\<lambda>e. case e of SubprocessRun c \<Rightarrow> [c] | _ \<Rightarrow> []) t)"

section \<open>\<open>scripts/rpscrape.py\<close>\<close>

subsection \<open>Collaborators\<close>

text \<open>
  The modules \<open>utils.race\<close>, \<open>utils.betfair\<close>, \<open>utils.course\<close> and the libraries
  \<open>requests\<close>, \<open>lxml\<close> and \<open>orjson\<close> are outside the scripts; they are parameters.

  \<^item> \<open>requests_get url\<close>: \<open>requests.get(url, headers=...)\<close>, giving \<open>resp.content\<close> or the
    exception raised.
  \<^item> \<open>html_fromstring content\<close>: \<open>lxml.html.fromstring\<close>, giving the document or the
    exception raised.
  \<^item> \<open>Race url doc code fields data\<close>: the constructor of \<open>utils.race.Race\<close>; \<open>data\<close> is
    \<open>betfair.data\<close> when the five-argument form is called. It gives the race or the
    exception raised, \<open>VoidRaceError\<close> among them.
  \<^item> \<open>Betfair urls\<close>: the constructor of \<open>utils.betfair.Betfair\<close>, giving the object or
    the exception raised.
  \<^item> \<open>settings_toml\<close>: \<open>settings.toml\<close>, \<open>None\<close> when the settings file did not parse.
\<close>

record race =
  r_type :: string
  csv_data :: "string list"

text \<open>
  A \<open>Betfair\<close> object: \<open>rows\<close> holds, for each row, the values of \<open>row.to_dict()\<close>
  (\<open>None\<close>, or the \<open>str\<close> of the value); \<open>truthy\<close> is what \<open>if betfair:\<close> sees.
\<close>

record 'b betfair =
  rows :: "string option list list"
  data :: 'b
  truthy :: bool

text \<open>
  The two entries of the settings that \<open>scrape_races\<close> reads: \<open>betfair_data\<close>
  (\<open>False\<close> when absent) and the keys of \<open>fields.betfair\<close> (none when absent).
\<close>

record toml =
  betfair_data :: bool
  betfair_fields :: "string list"

record ('d, 'b) collaborators =
  requests_get :: "string \<Rightarrow> exn + string"
  html_fromstring :: "string \<Rightarrow> exn + 'd"
  Race :: "string \<Rightarrow> 'd \<Rightarrow> string \<Rightarrow> string list \<Rightarrow> 'b option \<Rightarrow> exn + race"
  Betfair :: "string list \<Rightarrow> exn + 'b betfair"
  settings_toml :: "toml option"

subsection \<open>\<open>get_race_urls\<close>\<close>

text \<open>
  One entry of \<open>principleRaceResults\<close>: the values under \<open>raceDatetime\<close> and
  \<open>raceInstanceUid\<close> (as formatted into the URL), \<open>None\<close> for a missing key.
\<close>

record race_entry =
  raceDatetime :: "string option"
  raceInstanceUid :: "string option"

definition url_course_base :: string where
  "url_course_base = ''https://www.racingpost.com:443/profile/course/filter/results''"

definition url_result_base :: string where
  "url_result_base = ''https://www.racingpost.com/results''"

text \<open>Line 51: the address of the listing of one course and year.\<close>

definition race_list_url :: "string \<Rightarrow> string \<Rightarrow> string \<Rightarrow> string" where
  "race_list_url course_id year code =
     url_course_base @ ''/'' @ course_id @ ''/'' @ year @ ''/'' @ code @ ''/all-races''"

text \<open>
  Lines 61 to 64: the URL of one listed race, with its spaces replaced by hyphens and its
  apostrophes removed; a missing key raises \<open>KeyError\<close>.
\<close>

definition race_url :: "string \<Rightarrow> string \<Rightarrow> race_entry \<Rightarrow> exn + string" where
  "race_url course_id course race =
     (case raceDatetime race of
        None \<Rightarrow> Inl KeyError
      | Some dt \<Rightarrow>
          (case raceInstanceUid race of
             None \<Rightarrow> Inl KeyError
           | Some race_id \<Rightarrow>
               let race_date = take 10 dt;
                   url = url_result_base @ ''/'' @ course_id @ ''/'' @ course @ ''/''
                           @ race_date @ ''/'' @ race_id
               in Inr (str_replace (CHR 0x27) [] (str_replace CHR '' '' ''-'' url))))"

text \<open>The loop over the races of one listing (lines 60 to 64).\<close>

fun add_races :: "string \<Rightarrow> string \<Rightarrow> race_entry list \<Rightarrow> string set \<Rightarrow> exn + string set" where
  "add_races course_id course [] urls = Inr urls"
| "add_races course_id course (r # rs) urls =
     (case race_url course_id course r of
        Inl e \<Rightarrow> Inl e
      | Inr u \<Rightarrow> add_races course_id course rs (insert u urls))"

text \<open>
  The loop over the years for one track (lines 50 to 64). \<open>listing url\<close> is the decoded
  \<open>principleRaceResults\<close> list of the response to \<open>url\<close> (empty when the key or \<open>data\<close> is
  absent), or the exception raised by the request or the decoder.
\<close>

fun add_years ::
  "(string \<Rightarrow> exn + race_entry list) \<Rightarrow> string \<Rightarrow> string \<Rightarrow> string \<Rightarrow> string list
     \<Rightarrow> string set \<Rightarrow> exn + string set"
where
  "add_years listing code course_id course [] urls = Inr urls"
| "add_years listing code course_id course (year # years) urls =
     (case listing (race_list_url course_id year code) of
        Inl e \<Rightarrow> Inl e
      | Inr races \<Rightarrow>
          if races = [] then add_years listing code course_id course years urls
          else (case add_races course_id course races urls of
                  Inl e \<Rightarrow> Inl e
                | Inr urls' \<Rightarrow> add_years listing code course_id course years urls'))"

fun add_tracks ::
  "(string \<Rightarrow> exn + race_entry list) \<Rightarrow> string \<Rightarrow> (string \<times> string) list \<Rightarrow> string list
     \<Rightarrow> string set \<Rightarrow> exn + string set"
where
  "add_tracks listing code [] years urls = Inr urls"
| "add_tracks listing code ((course_id, course) # tracks) years urls =
     (case add_years listing code course_id course years urls of
        Inl e \<Rightarrow> Inl e
      | Inr urls' \<Rightarrow> add_tracks listing code tracks years urls')"

definition get_race_urls ::
  "(string \<Rightarrow> exn + race_entry list) \<Rightarrow> (string \<times> string) list \<Rightarrow> string list \<Rightarrow> string
     \<Rightarrow> exn + string list"
where
  "get_race_urls listing tracks years code =
     (case add_tracks listing code tracks years {} of
        Inl e \<Rightarrow> Inl e
      | Inr urls \<Rightarrow> Inr (sorted_list_of_set urls))"

subsection \<open>\<open>get_race_urls_date\<close>\<close>

text \<open>Line 74: the address of the results page of one date; a date is its \<open>str\<close>.\<close>

definition results_url :: "string \<Rightarrow> string" where
  "results_url race_date = ''https://www.racingpost.com/results/'' @ race_date"

text \<open>
  Lines 80 to 82 for one anchor, given as its \<open>href\<close> attribute (\<open>None\<close> when it has
  none, a \<open>KeyError\<close>): the third \<open>/\<close>-part of the link is the course id (an
  \<open>IndexError\<close> when there are fewer parts); the absolute URL when the course belongs to
  the region, nothing otherwise.
\<close>

definition link_url :: "string set \<Rightarrow> string option \<Rightarrow> exn + string option" where
  "link_url course_ids a =
     (case a of
        None \<Rightarrow> Inl KeyError
      | Some href \<Rightarrow>
          let parts = str_split CHR ''/'' href in
          if length parts \<le> 2 then Inl IndexError
          else
            let course_id = parts ! 2 in
            if course_id \<in> course_ids then Inr (Some (''https://www.racingpost.com'' @ href))
            else Inr None)"

text \<open>The loop over the anchors of one results page (lines 79 to 82).\<close>

fun add_links :: "string set \<Rightarrow> string option list \<Rightarrow> string set \<Rightarrow> exn + string set" where
  "add_links course_ids [] urls = Inr urls"
| "add_links course_ids (a # as) urls =
     (case link_url course_ids a of
        Inl e \<Rightarrow> Inl e
      | Inr None \<Rightarrow> add_links course_ids as urls
      | Inr (Some u) \<Rightarrow> add_links course_ids as (insert u urls))"

text \<open>
  The loop over the dates. \<open>anchors url\<close> is the list of the course-name anchors of the
  page at \<open>url\<close>, or the exception raised by the request or the parser.
\<close>

fun add_dates ::
  "(string \<Rightarrow> exn + string option list) \<Rightarrow> string set \<Rightarrow> string list \<Rightarrow> string set
     \<Rightarrow> exn + string set"
where
  "add_dates anchors course_ids [] urls = Inr urls"
| "add_dates anchors course_ids (race_date # dates) urls =
     (case anchors (results_url race_date) of
        Inl e \<Rightarrow> Inl e
      | Inr races \<Rightarrow>
          (case add_links course_ids races urls of
             Inl e \<Rightarrow> Inl e
           | Inr urls' \<Rightarrow> add_dates anchors course_ids dates urls'))"

text \<open>\<open>courses region\<close> is \<open>utils.course.courses\<close>: pairs of course id and name.\<close>

definition get_race_urls_date ::
  "(string \<Rightarrow> exn + string option list) \<Rightarrow> (string \<Rightarrow> (string \<times> string) list) \<Rightarrow> string list
     \<Rightarrow> string \<Rightarrow> exn + string list"
where
  "get_race_urls_date anchors courses dates region =
     (let course_ids = set (map fst (courses region)) in
      case add_dates anchors course_ids dates {} of
        Inl e \<Rightarrow> Inl e
      | Inr urls \<Rightarrow> Inr (sorted_list_of_set urls))"

subsection \<open>\<open>process\<close>, the worker of one job\<close>

text \<open>
  The closure \<open>process\<close> of \<open>scrape_races\<close>, with the variables it captures (\<open>total\<close>,
  \<open>code\<close>, \<open>fields\<close>, \<open>betfair\<close>) as arguments. It gives the messages it prints and
  either the pair it returns or the exception that leaves it.
\<close>

text \<open>
  Lines 143 to 146: the five-argument constructor when \<open>betfair\<close> is truthy, the
  four-argument one otherwise.
\<close>

definition new_race ::
  "('d, 'b) collaborators \<Rightarrow> string \<Rightarrow> 'd \<Rightarrow> string \<Rightarrow> string list \<Rightarrow> 'b betfair option
     \<Rightarrow> exn + race"
where
  "new_race env url doc code fields' betfair =
     (case betfair of
        None \<Rightarrow> Race env url doc code fields' None
      | Some b \<Rightarrow>
          if truthy b then Race env url doc code fields' (Some (data b))
          else Race env url doc code fields' None)"

definition process ::
  "('d, 'b) collaborators \<Rightarrow> nat \<Rightarrow> string \<Rightarrow> string list \<Rightarrow> 'b betfair option
     \<Rightarrow> nat \<Rightarrow> string \<Rightarrow> msg list \<times> (exn + nat \<times> string list)"
where
  "process env total' code fields' betfair idx url =
     (let out = [Fetching idx total' url] in
      case requests_get env url of
        Inl exc \<Rightarrow> (out @ [RequestFailed exc], Inr (idx, []))
      | Inr resp_content \<Rightarrow>
          (case html_fromstring env resp_content of
             Inl exc \<Rightarrow> (out, Inl exc)
           | Inr doc \<Rightarrow>
               (case new_race env url doc code fields' betfair of
                  Inl VoidRaceError \<Rightarrow> (out @ [SkippingVoid], Inr (idx, []))
                | Inl exc \<Rightarrow> (out @ [ParseFailed exc], Inr (idx, []))
                | Inr race \<Rightarrow>
                    if code = ''flat'' \<and> r_type race \<noteq> ''Flat''
                    then (out @ [SkippingNonFlat], Inr (idx, []))
                    else if code = ''jumps'' \<and> r_type race \<notin> {''Chase'', ''Hurdle'', ''NH Flat''}
                    then (out @ [SkippingNonJumps], Inr (idx, []))
                    else (out, Inr (idx, csv_data race)))))"

subsection \<open>Paths, directories and files of \<open>scrape_races\<close>\<close>

text \<open>
  The parts that a text contributes to a \<open>PurePosixPath\<close>: its \<open>/\<close>-separated
  components without the empty ones and the single dots; \<open>..\<close> is kept.
\<close>

definition segment_parts :: "string \<Rightarrow> path" where
  "segment_parts s = filter (\<lambda>c. c \<noteq> [] \<and> c \<noteq> ''.'') (str_split CHR ''/'' s)"

text \<open>
  The root of a text: none for a relative one, \<open>//\<close> for exactly two leading slashes,
  \<open>/\<close> otherwise.
\<close>

definition segment_root :: "string \<Rightarrow> string" where
  "segment_root s =
     (if take 1 s \<noteq> ''/'' then []
      else if take 2 s = ''//'' \<and> take 3 s \<noteq> ''///'' then ''//''
      else ''/'')"

text \<open>
  The operator \<open>/\<close> of \<open>pathlib\<close>: a relative segment is appended part by part, an
  absolute segment replaces the path on its left.
\<close>

definition path_join :: "path \<Rightarrow> string \<Rightarrow> path" where
  "path_join p s =
     (if segment_root s = [] then p @ segment_parts s
      else segment_root s # segment_parts s)"

text \<open>
  The world of the scraper also has directories: \<open>dirs\<close> holds the paths of the
  directories that exist, besides the current directory (the empty path) and the roots.
  Paths are taken as written: \<open>..\<close> and links are not resolved, and there are no
  permissions or quotas, so the only failures of the file operations are those below.
\<close>

record sworld = world +
  dirs :: "path set"

definition is_dir :: "sworld \<Rightarrow> path \<Rightarrow> bool" where
  "is_dir w p \<longleftrightarrow> p = [] \<or> p = [''/''] \<or> p = [''//''] \<or> p \<in> dirs w"

text \<open>A path and its parents: its non-empty prefixes.\<close>

definition ancestors :: "path \<Rightarrow> path list" where
  "ancestors p = map (\<lambda>n. take n p) [1..<Suc (length p)]"

text \<open>
  \<open>Path.mkdir(parents=True, exist_ok=True)\<close>: the directory and its missing parents are
  created; \<open>FileExistsError\<close> when the path is a regular file, \<open>NotADirectoryError\<close>
  when one of its parents is.
\<close>

definition mkdir :: "path \<Rightarrow> sworld \<Rightarrow> exn + sworld" where
  "mkdir p w =
     (if files w p \<noteq> None then Inl FileExistsError
      else if \<exists>q \<in> set (ancestors p). files w q \<noteq> None then Inl NotADirectoryError
      else Inr (emit (Mkdir p) (w\<lparr>dirs := dirs w \<union> set (ancestors p)\<rparr>)))"

text \<open>
  \<open>file_writer(str(path))\<close>, that is \<open>open(path, 'w')\<close> or \<open>gzip.open(path, 'wt')\<close>:
  \<open>IsADirectoryError\<close> for a directory, \<open>NotADirectoryError\<close> or
  \<open>FileNotFoundError\<close> when the parent is not an existing directory; otherwise the file
  is created or emptied. The \<open>file_writer\<close> argument decides only how the text is
  encoded on disk, so it is left out and a file holds the text written through its handle.
\<close>

definition open_write :: "path \<Rightarrow> sworld \<Rightarrow> exn + sworld" where
  "open_write p w =
     (if is_dir w p then Inl IsADirectoryError
      else if \<not> is_dir w (butlast p) then
        (if \<exists>q \<in> set (ancestors (butlast p)). files w q \<noteq> None then Inl NotADirectoryError
         else Inl FileNotFoundError)
      else if last p = ''..'' then Inl IsADirectoryError
      else Inr (emit (OpenWrite p) (w\<lparr>files := (files w)(p \<mapsto> [])\<rparr>)))"

text \<open>\<open>f.write(t)\<close> on the open handle of \<open>p\<close> appends \<open>t\<close>.\<close>

definition file_write :: "path \<Rightarrow> string \<Rightarrow> sworld \<Rightarrow> sworld" where
  "file_write p t w =
     emit (Write p t)
       (w\<lparr>files := (files w)(p \<mapsto> (case files w p of None \<Rightarrow> t | Some old \<Rightarrow> old @ t))\<rparr>)"

definition newline :: string where
  "newline = [CHR 0x0A]"

subsection \<open>\<open>scrape_races\<close>\<close>

text \<open>The paths of lines 99, 102, 110 and 113.\<close>

definition out_dir :: "string \<Rightarrow> string \<Rightarrow> path" where
  "out_dir folder_name code = path_join (path_join (path_join [] ''../data'') folder_name) code"

definition file_path :: "string \<Rightarrow> string \<Rightarrow> string \<Rightarrow> string \<Rightarrow> path" where
  "file_path folder_name code file_name file_extension =
     path_join (out_dir folder_name code) (file_name @ ''.'' @ file_extension)"

definition betfair_dir :: "string \<Rightarrow> string \<Rightarrow> path" where
  "betfair_dir folder_name code =
     path_join (path_join (path_join [] ''../data/betfair'') folder_name) code"

definition betfair_path :: "string \<Rightarrow> string \<Rightarrow> string \<Rightarrow> path" where
  "betfair_path folder_name code file_name =
     path_join (betfair_dir folder_name code) (file_name @ ''.csv'')"

text \<open>The text of the side-dataset artifact: the header line and one line for each row.\<close>

definition betfair_line :: "string option list \<Rightarrow> string" where
  "betfair_line row =
     str_join '','' (map (\<lambda>v. case v of None \<Rightarrow> [] | Some x \<Rightarrow> x) row) @ newline"

definition betfair_header :: "toml \<Rightarrow> string" where
  "betfair_header t =
     str_join '','' ([''date'', ''region'', ''off'', ''horse''] @ betfair_fields t) @ newline"

text \<open>
  Lines 107 to 121: the side dataset is built and its artifact written. The result is the
  \<open>Betfair\<close> object or the exception that ends the call, with the world reached.
\<close>

definition fetch_betfair_data ::
  "('d, 'b) collaborators \<Rightarrow> toml \<Rightarrow> string list \<Rightarrow> string \<Rightarrow> string \<Rightarrow> string \<Rightarrow> sworld
     \<Rightarrow> (exn + 'b betfair) \<times> sworld"
where
  "fetch_betfair_data env t race_urls folder_name file_name code w =
     (let w1 = emit (Print GettingBetfair) w;
          w2 = emit (BetfairBuild race_urls) w1
      in
      case Betfair env race_urls of
        Inl e \<Rightarrow> (Inl e, w2)
      | Inr betfair \<Rightarrow>
          (case mkdir (betfair_dir folder_name code) w2 of
             Inl e \<Rightarrow> (Inl e, w2)
           | Inr w3 \<Rightarrow>
               let f = betfair_path folder_name code file_name in
               (case open_write f w3 of
                  Inl e \<Rightarrow> (Inl e, w3)
                | Inr w4 \<Rightarrow>
                    let w5 = file_write f (betfair_header t) w4;
                        w6 = fold (\<lambda>row. file_write f (betfair_line row)) (rows betfair) w5
                    in (Inr betfair, w6))))"

text \<open>
  Lines 104 to 121: \<open>betfair\<close> stays \<open>None\<close> unless enrichment is requested and the
  settings are present with \<open>betfair_data\<close> true. (An empty settings mapping is falsy
  and has no \<open>betfair_data\<close> either, so it needs no case of its own.)
\<close>

definition betfair_step ::
  "('d, 'b) collaborators \<Rightarrow> bool \<Rightarrow> string list \<Rightarrow> string \<Rightarrow> string \<Rightarrow> string \<Rightarrow> sworld
     \<Rightarrow> (exn + 'b betfair option) \<times> sworld"
where
  "betfair_step env fetch_betfair race_urls folder_name file_name code w =
     (case settings_toml env of
        None \<Rightarrow> (Inr None, w)
      | Some t \<Rightarrow>
          if fetch_betfair \<and> betfair_data t
          then (case fetch_betfair_data env t race_urls folder_name file_name code w of
                  (Inl e, w') \<Rightarrow> (Inl e, w')
                | (Inr b, w') \<Rightarrow> (Inr (Some b), w'))
          else (Inr None, w))"

text \<open>
  Lines 99 to 121, everything before the emptiness check: the output directory is created
  and the side-dataset step is run, from the files \<open>fs\<close> and directories \<open>ds\<close> found.
\<close>

definition prepare ::
  "('d, 'b) collaborators \<Rightarrow> bool \<Rightarrow> string list \<Rightarrow> string \<Rightarrow> string \<Rightarrow> string \<Rightarrow> files
     \<Rightarrow> path set \<Rightarrow> (exn + 'b betfair option) \<times> sworld"
where
  "prepare env fetch_betfair race_urls folder_name file_name code fs ds =
     (let w0 = \<lparr>files = fs, trace = [], dirs = ds\<rparr> in
      case mkdir (out_dir folder_name code) w0 of
        Inl e \<Rightarrow> (Inl e, w0)
      | Inr w1 \<Rightarrow> betfair_step env fetch_betfair race_urls folder_name file_name code w1)"

text \<open>\<open>enumerate(race_urls, start=1)\<close>.\<close>

definition enumerate1 :: "'a list \<Rightarrow> (nat \<times> 'a) list" where
  "enumerate1 xs = zip [1..<Suc (length xs)] xs"

text \<open>
  \<open>results.append(future.result())\<close> over the futures in completion order: the first
  future that holds an exception raises it and ends the loop.
\<close>

fun collect :: "('m \<times> (exn + 'r)) list \<Rightarrow> 'r list \<Rightarrow> exn + 'r list" where
  "collect [] results = Inr results"
| "collect ((out, Inl exc) # fs) results = Inl exc"
| "collect ((out, Inr r) # fs) results = collect fs (results @ [r])"

text \<open>
  Lines 171 to 178: the output file is opened and written, then
  \<open>file_path.relative_to('../')\<close> raises \<open>ValueError\<close> unless the first part of the path
  is \<open>..\<close>, and the relative path is printed.
\<close>

definition write_results ::
  "path \<Rightarrow> string \<Rightarrow> (nat \<times> string list) list \<Rightarrow> sworld \<Rightarrow> outcome \<times> sworld"
where
  "write_results p csv_header results w =
     (case open_write p w of
        Inl e \<Rightarrow> (Uncaught e, w)
      | Inr w7 \<Rightarrow>
          let w8 = file_write p (csv_header @ newline) w7;
              w9 = fold (\<lambda>(_, rs) w. fold (\<lambda>row. file_write p (row @ newline)) rs w) results w8
          in if take 1 p = [''..''] then (Returned, emit (Print (Finished (drop 1 p))) w9)
             else (Uncaught ValueError, w9))"

text \<open>
  \<open>as_completed\<close> is the order in which the jobs complete: any rearrangement of the
  submitted jobs. The messages of the jobs are recorded in that order, after the
  submissions; their real interleaving is not fixed by the code.
\<close>

definition scrape_races ::
  "('d, 'b) collaborators
     \<Rightarrow> ((msg list \<times> (exn + nat \<times> string list)) list
           \<Rightarrow> (msg list \<times> (exn + nat \<times> string list)) list)
     \<Rightarrow> string list \<Rightarrow> string \<Rightarrow> string \<Rightarrow> string \<Rightarrow> string \<Rightarrow> string list \<Rightarrow> string
     \<Rightarrow> bool \<Rightarrow> int \<Rightarrow> files \<Rightarrow> path set \<Rightarrow> outcome \<times> sworld"
where
  "scrape_races env as_completed race_urls folder_name file_name file_extension code fields'
      csv_header fetch_betfair jobs fs ds =
     (case prepare env fetch_betfair race_urls folder_name file_name code fs ds of
        (Inl e, w2) \<Rightarrow> (Uncaught e, w2)
      | (Inr betfair, w2) \<Rightarrow>
          let total' = length race_urls in
          if total' = 0 then (Returned, emit (Print NoRacesFound) w2)
          else
            let jobs' = max 1 (min 10 jobs);
                w3 = emit (Print (Scraping total' jobs')) w2;
                w4 = emit (Executor jobs') w3;
                submitted = enumerate1 race_urls;
                w5 = fold (\<lambda>(idx, url). emit (Submit idx url)) submitted w4;
                completed =
                  as_completed
                    (map (\<lambda>(idx, url). process env total' code fields' betfair idx url)
                       submitted);
                w6 = fold (\<lambda>(out, r) w. fold (\<lambda>m. emit (Print m)) out w) completed w5
            in
            case collect completed [] of
              Inl exc \<Rightarrow> (Uncaught exc, w6)
            | Inr results \<Rightarrow>
                write_results (file_path folder_name code file_name file_extension) csv_header
                  (sort_key fst results) w6)"

subsection \<open>Observations on a run of \<open>scrape_races\<close>\<close>

text \<open>
  The value of the local variable \<open>betfair\<close> after line 121, when the call gets there:
  the side dataset when enrichment is requested and enabled, otherwise \<open>None\<close>.
\<close>

definition side_dataset :: "('d, 'b) collaborators \<Rightarrow> bool \<Rightarrow> string list \<Rightarrow> 'b betfair option" where
  "side_dataset env fetch_betfair race_urls =
     (case settings_toml env of
        None \<Rightarrow> None
      | Some t \<Rightarrow>
          if fetch_betfair \<and> betfair_data t
          then (case Betfair env race_urls of Inl e \<Rightarrow> None | Inr b \<Rightarrow> Some b)
          else None)"

text \<open>Whether enrichment is requested and enabled by the settings (line 106).\<close>

definition enrichment_on :: "('d, 'b) collaborators \<Rightarrow> bool \<Rightarrow> bool" where
  "enrichment_on env fetch_betfair =
     (case settings_toml env of
        None \<Rightarrow> False
      | Some t \<Rightarrow> fetch_betfair \<and> betfair_data t)"

text \<open>What each job gives, in the order of the input sequence.\<close>

definition job_results ::
  "('d, 'b) collaborators \<Rightarrow> string \<Rightarrow> string list \<Rightarrow> bool \<Rightarrow> string list
     \<Rightarrow> (exn + nat \<times> string list) list"
where
  "job_results env code fields' fetch_betfair race_urls =
     map (\<lambda>(idx, url).
            snd (process env (length race_urls) code fields'
                   (side_dataset env fetch_betfair race_urls) idx url))
       (enumerate1 race_urls)"

definition is_result :: "exn + 'a \<Rightarrow> bool" where
  "is_result r = (case r of Inl e \<Rightarrow> False | Inr x \<Rightarrow> True)"

definition rows_of :: "exn + nat \<times> string list \<Rightarrow> string list" where
  "rows_of r = (case r of Inl e \<Rightarrow> [] | Inr x \<Rightarrow> snd x)"

text \<open>The pool sizes, the submitted jobs and the side-dataset builds of a trace.\<close>

definition executors :: "effect list \<Rightarrow> int list" where
  "executors t = concat (map (\<lambda>e. case e of Executor n \<Rightarrow> [n] | _ \<Rightarrow> []) t)"

definition submits :: "effect list \<Rightarrow> (nat \<times> string) list" where
  "submits t = concat (map (\<lambda>e. case e of Submit i u \<Rightarrow> [(i, u)] | _ \<Rightarrow> []) t)"

definition betfair_builds :: "effect list \<Rightarrow> string list list" where
  "betfair_builds t = concat (map (\<lambda>e. case e of BetfairBuild us \<Rightarrow> [us] | _ \<Rightarrow> []) t)"

text \<open>The paths opened for writing or written to in a trace.\<close>

definition written_paths :: "effect list \<Rightarrow> path list" where
  "written_paths t =
     concat (map (\<lambda>e. case e of OpenWrite p \<Rightarrow> [p] | Write p x \<Rightarrow> [p] | _ \<Rightarrow> []) t)"

subsection \<open>Observations on URL discovery\<close>







section \<open>Example inputs\<close>

text \<open>
  A failure log with the three lines of the specification's example, at a path under a
  \<open>dates\<close> directory, and a sub-run that fails for one date and appends a line to the log.
\<close>

definition ex_log :: path where
  "ex_log = [''/'', ''data'', ''dates'', ''uk'', ''failed.log'']"

definition ex_text :: string where
  "ex_text = ''dates/uk/2024-05-01/abc123'' @ newline @ ''dates/uk/2024-05-01/xyz789'' @ newline
             @ ''dates/ire/2024-05-02/foo'' @ newline"

definition ex_fs :: files where
  "ex_fs = [ex_log \<mapsto> ex_text]"

definition ex_args :: args where
  "ex_args = \<lparr>args_log = ex_log, args_region = None, args_jobs = 25\<rparr>"

definition ex_run :: "cmd \<Rightarrow> files \<Rightarrow> int \<times> files" where
  "ex_run c f =
     (if date_arg c = ''2024/05/02''
      then (1, f(ex_log \<mapsto> (case f ex_log of None \<Rightarrow> [] | Some t \<Rightarrow> t) @ ''dates/uk/2024-05-02/foo'' @ newline))
      else (0, f))"

text \<open>
  Collaborators for a run of the scraper: the request for \<open>u2\<close> fails, the page of
  \<open>u4\<close> has an empty body, which \<open>lxml.html.fromstring\<close> rejects with
  \<open>ParserError\<close> (``Document is empty''), \<open>u3\<close> is a void race, \<open>u1\<close> is a hurdle
  race and every other race is a flat race with two rows.
\<close>

definition ex_env :: "(string, unit) collaborators" where
  "ex_env =
     \<lparr>requests_get = (\<lambda>url. if url = ''u2'' then Inl RequestException
                            else if url = ''u4'' then Inr [] else Inr (''<html>'' @ url)),
      html_fromstring = (\<lambda>content. if content = [] then Inl ParserError else Inr content),
      Race = (\<lambda>url doc code fields' d.
                if url = ''u3'' then Inl VoidRaceError
                else Inr \<lparr>r_type = (if url = ''u1'' then ''Hurdle'' else ''Flat''),
                          csv_data = [url @ '',1'', url @ '',2'']\<rparr>),
      Betfair = (\<lambda>urls. Inr \<lparr>rows = [], data = (), truthy = True\<rparr>),
      settings_toml = Some \<lparr>betfair_data = True, betfair_fields = [''bsp'']\<rparr>\<rparr>"

definition ex_plain :: path where
  "ex_plain = [''/'', ''tmp'', ''failed.log'']"

definition ex_urls :: "string list" where
  "ex_urls = [''u5'', ''u2'', ''u6'', ''u3'', ''u1'']"

text \<open>
  Listings for URL discovery: one course listing with a repeated race, returned for every
  course and year, and one results page with a repeated link and a link to a course
  outside the region.
\<close>

definition ex_listing :: "string \<Rightarrow> exn + race_entry list" where
  "ex_listing url =
     Inr [\<lparr>raceDatetime = Some ''2024-05-01T15:05:00'', raceInstanceUid = Some ''861235''\<rparr>,
          \<lparr>raceDatetime = Some ''2024-05-01T14:30:00'', raceInstanceUid = Some ''861234''\<rparr>,
          \<lparr>raceDatetime = Some ''2024-05-01T15:05:00'', raceInstanceUid = Some ''861235''\<rparr>]"

definition ex_tracks :: "(string \<times> string) list" where
  "ex_tracks = [(''93'', ''newton abbot''), (''7'', ''st john'' @ [CHR 0x27] @ ''s'')]"

definition ex_anchors :: "string \<Rightarrow> exn + string option list" where
  "ex_anchors url =
     Inr [Some ''/results/93/newton-abbot/2024-05-01/861235'',
          Some ''/results/400/meydan/2024-05-01/861300'',
          Some ''/results/7/ayr/2024-05-01/861240'',
          Some ''/results/93/newton-abbot/2024-05-01/861235'']"

definition ex_courses :: "string \<Rightarrow> (string \<times> string) list" where
  "ex_courses region = (if region = ''gb'' then [(''93'', ''Newton Abbot''), (''7'', ''Ayr'')] else [])"

text \<open>
  Responses that the code does not get through: the listing of 2024 is not JSON, so the
  decoder raises; the results page of 2 May has an empty body, so the parser raises.
\<close>

definition ex_bad_listing :: "string \<Rightarrow> exn + race_entry list" where
  "ex_bad_listing url =
     (if url = race_list_url ''93'' ''2024'' ''flat'' then Inl (OtherError ''JSONDecodeError'')
      else ex_listing url)"

definition ex_bad_anchors :: "string \<Rightarrow> exn + string option list" where
  "ex_bad_anchors url =
     (if url = results_url ''2024-05-02'' then Inl ParserError else ex_anchors url)"

section \<open>Properties\<close>

subsection \<open>Auxiliary facts about the retry driver\<close>

lemma fold_extract_dates_line:
  "fold (\<lambda>line dates. extract_dates_line dates line) ls A =
     A \<union> {d. \<exists>line \<in> set ls. 2 \<le> length (str_split CHR ''/'' line) \<and>
            d = str_split CHR ''/'' line ! (length (str_split CHR ''/'' line) - 2) \<and>
            length (str_split CHR ''-'' d) = 3}"
  by (induction ls arbitrary: A) (auto simp: extract_dates_line_def Let_def)

lemma finite_fold_extract_dates_line:
  "finite A \<Longrightarrow> finite (fold (\<lambda>line dates. extract_dates_line dates line) ls A)"
  by (induction ls arbitrary: A) (auto simp: extract_dates_line_def Let_def)

lemma rfind_dot_Some: "rfind_dot s = Some i \<Longrightarrow> i < length s \<and> s ! i = CHR ''.''"
  by (induction s arbitrary: i) (auto split: option.splits if_splits)

lemma suffix_cases:
  "suffix p = [] \<or> (\<exists>i. 0 < i \<and> Suc i < length (path_name p) \<and> suffix p = drop i (path_name p)
      \<and> path_name p ! i = CHR ''.'')"
  by (auto simp: suffix_def Let_def split: option.splits dest: rfind_dot_Some)

lemma with_suffix_bak:
  assumes "file_path_ok p"
  shows "with_suffix p (suffix p @ ''.bak'') = Inr (butlast p @ [path_name p @ ''.bak''])"
proof -
  from suffix_cases [of p] show ?thesis
  proof
    assume "suffix p = []"
    then show ?thesis using assms by (simp add: with_suffix_def file_path_ok_def)
  next
    assume "\<exists>i. 0 < i \<and> Suc i < length (path_name p) \<and> suffix p = drop i (path_name p)
      \<and> path_name p ! i = CHR ''.''"
    then obtain i where i: "0 < i" "Suc i < length (path_name p)"
      "suffix p = drop i (path_name p)" "path_name p ! i = CHR ''.''" by blast
    have ne: "suffix p \<noteq> []" using i by simp
    have hd: "hd (suffix p) = CHR ''.''" using i by (simp add: hd_drop_conv_nth)
    have nosep: "CHR ''/'' \<notin> set (suffix p)"
      using assms i(3) in_set_dropD [of "CHR ''/''" i "path_name p"]
      by (auto simp: file_path_ok_def)
    have tk: "take (length (path_name p) - length (suffix p)) (path_name p) @ suffix p = path_name p"
      using i by simp
    have "suffix p @ ''.bak'' \<noteq> ''.''" using ne by (cases "suffix p") auto
    moreover have "hd (suffix p @ ''.bak'') = CHR ''.''" using ne hd by simp
    ultimately show ?thesis using assms ne nosep tk
      by (simp add: with_suffix_def file_path_ok_def Let_def)
  qed
qed

lemma backup_path_neq: "butlast p @ [path_name p @ ''.bak''] \<noteq> p"
proof (cases "p = []")
  case True
  then show ?thesis by simp
next
  case False
  then have p: "p = butlast p @ [last p]" by simp
  have "path_name p @ ''.bak'' \<noteq> last p"
  proof (cases "p = [''/'']")
    case True
    then show ?thesis by (simp add: path_name_def)
  next
    case False
    then have "path_name p = last p" using \<open>p \<noteq> []\<close> by (simp add: path_name_def)
    then show ?thesis by simp
  qed
  then show ?thesis using p by (metis append1_eq_conv)
qed

lemma retry_dates_trace:
  "\<exists>rest. trace (retry_dates run region jobs ds w) = trace w @ rest \<and>
     (\<forall>e \<in> set rest. (\<exists>m. e = Print m) \<or> (\<exists>c. e = SubprocessRun c)) \<and>
     subruns rest = map (\<lambda>d. \<lparr>date_arg = str_replace CHR ''-'' ''/'' d, region_arg = region, jobs_arg = jobs\<rparr>) ds"
proof (induction ds arbitrary: w)
  case Nil
  then show ?case by (simp add: subruns_def)
next
  case (Cons d ds)
  let ?c = "\<lparr>date_arg = str_replace CHR ''-'' ''/'' d, region_arg = region, jobs_arg = jobs\<rparr>"
  let ?w1 = "emit (Print (Retrying d)) w"
  let ?w2 = "emit (SubprocessRun ?c) (?w1\<lparr>files := snd (run ?c (files ?w1))\<rparr>)"
  let ?w3 = "if fst (run ?c (files ?w1)) \<noteq> 0 then emit (Print (SubrunFailed d (fst (run ?c (files ?w1))))) ?w2 else ?w2"
  have step: "retry_dates run region jobs (d # ds) w = retry_dates run region jobs ds ?w3"
    by (simp add: Let_def)
  from Cons.IH [of ?w3] obtain rest where
    r: "trace (retry_dates run region jobs ds ?w3) = trace ?w3 @ rest"
       "\<forall>e \<in> set rest. (\<exists>m. e = Print m) \<or> (\<exists>c. e = SubprocessRun c)"
       "subruns rest = map (\<lambda>d. \<lparr>date_arg = str_replace CHR ''-'' ''/'' d, region_arg = region, jobs_arg = jobs\<rparr>) ds"
    by blast
  obtain pre where pre: "trace ?w3 = trace w @ pre" "\<forall>e \<in> set pre. (\<exists>m. e = Print m) \<or> (\<exists>c. e = SubprocessRun c)"
     "subruns pre = [?c]"
    by (cases "fst (run ?c (files ?w1)) = 0") (auto simp: emit_def subruns_def)
  show ?case
    apply (rule exI [of _ "pre @ rest"])
    using r pre unfolding step by (auto simp: subruns_def)
qed

lemma retry_dates_files:
  assumes "\<And>c f. snd (run c f) p = f p"
  shows "files (retry_dates run region jobs ds w) p = files w p"
  using assms by (induction ds arbitrary: w) (simp_all add: Let_def emit_def)

lemma main_proceeds:
  assumes "fs (args_log a) = Some content"
    and "resolve_region (args_region a) (args_log a) = Inr (Some region)" and "region \<noteq> []"
    and "extract_dates fs (args_log a) = Inr dates" and "dates \<noteq> []"
    and "file_path_ok (args_log a)"
  shows "main run a fs =
    (Returned, emit (Print RetryComplete)
       (retry_dates run region (max 1 (min 10 (args_jobs a))) dates
          \<lparr>files = fs(butlast (args_log a) @ [path_name (args_log a) @ ''.bak''] \<mapsto> content,
                     args_log a \<mapsto> []),
           trace = [CopyFile (args_log a) (butlast (args_log a) @ [path_name (args_log a) @ ''.bak'']),
                    Print (BackedUp (butlast (args_log a) @ [path_name (args_log a) @ ''.bak''])),
                    WriteText (args_log a) []]\<rparr>))"
proof -
  let ?b = "butlast (args_log a) @ [path_name (args_log a) @ ''.bak'']"
  have ws: "with_suffix (args_log a) (suffix (args_log a) @ ''.bak'') = Inr ?b"
    using assms(6) by (rule with_suffix_bak)
  have ne: "args_log a \<noteq> ?b" using backup_path_neq [of "args_log a"] by simp
  have cp: "copyfile (args_log a) ?b \<lparr>files = fs, trace = []\<rparr> =
      Inr \<lparr>files = fs(?b \<mapsto> content), trace = [CopyFile (args_log a) ?b]\<rparr>"
    using ne assms(1) by (simp add: copyfile_def emit_def)
  show ?thesis
    unfolding main_def Let_def
    using assms(1-5) by (simp add: path_exists_def ws cp emit_def write_text_def)
qed

lemma ex_extract: "extract_dates ex_fs ex_log = Inr [''2024-05-01'', ''2024-05-02'']"
  by code_simp

lemma ex_region: "resolve_region (args_region ex_args) (args_log ex_args) = Inr (Some ''uk'')"
  by code_simp

lemma ex_ok: "file_path_ok (args_log ex_args)"
  by code_simp

subsection \<open>Claims about the retry driver\<close>

text \<open>
  Claim C3. Whenever the driver goes on to retry work (the log exists, a region is resolved
  and at least one date is recovered), the backup path is the log path with \<open>.bak\<close>
  appended to its name, the log is first copied there, then truncated, and only then are
  the sub-runs launched: the world the first sub-run starts from holds the original
  content at the backup path and the empty text at the log path, and every later effect
  is a message or a sub-run. If the sub-runs leave the backup path alone, it still holds
  the original content when \<open>main\<close> returns.
\<close>

theorem main_backup_before_truncate:
  assumes "fs (args_log a) = Some content"
    and "resolve_region (args_region a) (args_log a) = Inr (Some region)" and "region \<noteq> []"
    and "extract_dates fs (args_log a) = Inr dates" and "dates \<noteq> []"
    and "file_path_ok (args_log a)"
  shows "\<exists>backup w3 rest.
      with_suffix (args_log a) (suffix (args_log a) @ ''.bak'') = Inr backup \<and>
      backup = butlast (args_log a) @ [path_name (args_log a) @ ''.bak''] \<and>
      backup \<noteq> args_log a \<and>
      main run a fs =
        (Returned, emit (Print RetryComplete)
           (retry_dates run region (max 1 (min 10 (args_jobs a))) dates w3)) \<and>
      files w3 = fs(backup \<mapsto> content, args_log a \<mapsto> []) \<and>
      trace w3 = [CopyFile (args_log a) backup, Print (BackedUp backup), WriteText (args_log a) []] \<and>
      trace (snd (main run a fs)) = trace w3 @ rest \<and>
      (\<forall>e \<in> set rest. (\<exists>m. e = Print m) \<or> (\<exists>c. e = SubprocessRun c)) \<and>
      length (subruns rest) = length dates \<and>
      ((\<forall>c f. snd (run c f) backup = f backup) \<longrightarrow>
          files (snd (main run a fs)) backup = Some content)"
proof -
  let ?b = "butlast (args_log a) @ [path_name (args_log a) @ ''.bak'']"
  let ?j = "max 1 (min 10 (args_jobs a))"
  let ?w3 = "\<lparr>files = fs(?b \<mapsto> content, args_log a \<mapsto> []),
              trace = [CopyFile (args_log a) ?b, Print (BackedUp ?b), WriteText (args_log a) []]\<rparr>"
  have m: "main run a fs = (Returned, emit (Print RetryComplete) (retry_dates run region ?j dates ?w3))"
    using assms by (rule main_proceeds)
  have ne: "?b \<noteq> args_log a" by (rule backup_path_neq)
  from retry_dates_trace [of run region ?j dates ?w3] obtain r where
    r: "trace (retry_dates run region ?j dates ?w3) = trace ?w3 @ r"
       "\<forall>e \<in> set r. (\<exists>m. e = Print m) \<or> (\<exists>c. e = SubprocessRun c)"
       "subruns r = map (\<lambda>d. \<lparr>date_arg = str_replace CHR ''-'' ''/'' d, region_arg = region, jobs_arg = ?j\<rparr>) dates"
    by blast
  have t: "trace (snd (main run a fs)) = trace ?w3 @ (r @ [Print RetryComplete])"
    unfolding m using r(1) by (simp add: emit_def)
  have s: "length (subruns (r @ [Print RetryComplete])) = length dates"
    using r(3) by (simp add: subruns_def)
  have p: "(\<forall>c f. snd (run c f) ?b = f ?b) \<longrightarrow> files (snd (main run a fs)) ?b = Some content"
  proof
    assume "\<forall>c f. snd (run c f) ?b = f ?b"
    then have "files (retry_dates run region ?j dates ?w3) ?b = files ?w3 ?b"
      by (intro retry_dates_files) simp
    then show "files (snd (main run a fs)) ?b = Some content"
      unfolding m using ne by (simp add: emit_def)
  qed
  show ?thesis
    apply (rule exI [of _ ?b], rule exI [of _ ?w3], rule exI [of _ "r @ [Print RetryComplete]"])
    using with_suffix_bak [OF assms(6)] ne m t r(2) s p by auto
qed

theorem main_backup_before_truncate_witness:
  "\<exists>backup w3 rest.
      with_suffix ex_log (suffix ex_log @ ''.bak'') = Inr backup \<and>
      backup = [''/'', ''data'', ''dates'', ''uk'', ''failed.log.bak''] \<and>
      main ex_run ex_args ex_fs =
        (Returned, emit (Print RetryComplete)
           (retry_dates ex_run ''uk'' 10 [''2024-05-01'', ''2024-05-02''] w3)) \<and>
      files w3 = ex_fs(backup \<mapsto> ex_text, ex_log \<mapsto> []) \<and>
      trace w3 = [CopyFile ex_log backup, Print (BackedUp backup), WriteText ex_log []] \<and>
      trace (snd (main ex_run ex_args ex_fs)) = trace w3 @ rest \<and>
      files (snd (main ex_run ex_args ex_fs)) backup = Some ex_text"
proof -
  have h1: "ex_fs (args_log ex_args) = Some ex_text" by (simp add: ex_fs_def ex_args_def)
  have h4: "extract_dates ex_fs (args_log ex_args) = Inr [''2024-05-01'', ''2024-05-02'']"
    using ex_extract by (simp add: ex_args_def)
  have b: "butlast ex_log @ [path_name ex_log @ ''.bak''] = [''/'', ''data'', ''dates'', ''uk'', ''failed.log.bak'']"
    by (simp add: ex_log_def path_name_def)
  have pr: "\<forall>c f. snd (ex_run c f) [''/'', ''data'', ''dates'', ''uk'', ''failed.log.bak''] = f [''/'', ''data'', ''dates'', ''uk'', ''failed.log.bak'']"
    by (simp add: ex_run_def ex_log_def)
  have j: "max 1 (min 10 (args_jobs ex_args)) = 10" by (simp add: ex_args_def)
  have l: "args_log ex_args = ex_log" by (simp add: ex_args_def)
  from main_backup_before_truncate [of ex_fs ex_args ex_text "''uk''" "[''2024-05-01'', ''2024-05-02'']" ex_run,
      OF h1 ex_region _ h4 _ ex_ok]
  show ?thesis unfolding l b j using pr by auto
qed

text \<open>
  Claim C4. If the log path does not exist, or no region is given and none can be inferred
  from the log path, the invocation ends with a non-zero exit status, the file system is
  unchanged, and nothing but messages has happened: no copy, no truncation, no sub-run.
\<close>

theorem main_fatal_before_mutation:
  assumes "\<not> path_exists fs (args_log a) \<or>
           (args_region a = None \<and> (\<forall>r. resolve_region None (args_log a) \<noteq> Inr (Some r)))"
  shows "exit_status (fst (main run a fs)) \<noteq> 0 \<and>
         files (snd (main run a fs)) = fs \<and>
         (\<forall>e \<in> set (trace (snd (main run a fs))). \<exists>m. e = Print m)"
  using assms
  by (auto simp: main_def Let_def emit_def split: sum.splits option.splits)

theorem main_fatal_before_mutation_witness:
  "(exit_status (fst (main ex_run ex_args Map.empty)) \<noteq> 0 \<and>
    files (snd (main ex_run ex_args Map.empty)) = Map.empty) \<and>
   (exit_status (fst (main ex_run \<lparr>args_log = ex_plain, args_region = None, args_jobs = 6\<rparr> [ex_plain \<mapsto> ex_text])) \<noteq> 0 \<and>
    files (snd (main ex_run \<lparr>args_log = ex_plain, args_region = None, args_jobs = 6\<rparr> [ex_plain \<mapsto> ex_text])) = [ex_plain \<mapsto> ex_text])"
proof -
  have r: "resolve_region None ex_plain = Inr None" by code_simp
  show ?thesis
    using main_fatal_before_mutation [of Map.empty ex_args ex_run]
      main_fatal_before_mutation [of "[ex_plain \<mapsto> ex_text]" "\<lparr>args_log = ex_plain, args_region = None, args_jobs = 6\<rparr>" ex_run]
    by (simp add: path_exists_def r)
qed

text \<open>
  Claim C6. For every log text, \<open>extract_dates\<close> returns the ascending list, without
  duplicates, of the second-to-last \<open>/\<close>-segments of the lines that have at least two
  segments and whose second-to-last segment has exactly three \<open>-\<close>-parts. No other
  line and no other segment (the region among them) enters the result.
\<close>

theorem extract_dates_spec:
  assumes "fs log_path = Some txt"
  shows "\<exists>ds. extract_dates fs log_path = Inr ds \<and> sorted ds \<and> distinct ds \<and>
           set ds = {d. \<exists>line \<in> set (splitlines txt).
                      2 \<le> length (str_split CHR ''/'' line) \<and>
                      d = str_split CHR ''/'' line ! (length (str_split CHR ''/'' line) - 2) \<and>
                      length (str_split CHR ''-'' d) = 3}"
proof -
  let ?A = "fold (\<lambda>line dates. extract_dates_line dates line) (splitlines txt) {}"
  have fin: "finite ?A" by (rule finite_fold_extract_dates_line) simp
  have eq: "extract_dates fs log_path = Inr (sorted_list_of_set ?A)"
    using assms by (simp add: extract_dates_def read_text_def)
  have "set (sorted_list_of_set ?A) = ?A" using fin by simp
  then show ?thesis
    unfolding eq using fold_extract_dates_line [of "splitlines txt" "{}"] by simp
qed

theorem extract_dates_spec_witness:
  "extract_dates ex_fs ex_log = Inr [''2024-05-01'', ''2024-05-02''] \<and>
   sorted [''2024-05-01'', ''2024-05-02''] \<and> distinct [''2024-05-01'', ''2024-05-02''] \<and>
   set [''2024-05-01'', ''2024-05-02''] =
     {d. \<exists>line \<in> set (splitlines ex_text).
           2 \<le> length (str_split CHR ''/'' line) \<and>
           d = str_split CHR ''/'' line ! (length (str_split CHR ''/'' line) - 2) \<and>
           length (str_split CHR ''-'' d) = 3}"
proof -
  have h: "ex_fs ex_log = Some ex_text" by (simp add: ex_fs_def)
  from extract_dates_spec [of ex_fs ex_log ex_text, OF h] obtain ds where
    ds: "extract_dates ex_fs ex_log = Inr ds" "sorted ds" "distinct ds"
        "set ds = {d. \<exists>line \<in> set (splitlines ex_text).
           2 \<le> length (str_split CHR ''/'' line) \<and>
           d = str_split CHR ''/'' line ! (length (str_split CHR ''/'' line) - 2) \<and>
           length (str_split CHR ''-'' d) = 3}"
    by blast
  from ds(1) have "ds = [''2024-05-01'', ''2024-05-02'']" unfolding ex_extract by simp
  with ds show ?thesis by blast
qed

subsection \<open>Auxiliary facts about the scraper\<close>

lemma trace_emit [simp]: "trace (emit e w) = trace w @ [e]"
  by (simp add: emit_def)

lemma files_emit [simp]: "files (emit e w) = files w"
  by (simp add: emit_def)

lemma dirs_emit [simp]: "dirs (emit e w) = dirs w"
  by (simp add: emit_def)

lemma trace_file_write [simp]: "trace (file_write p t w) = trace w @ [Write p t]"
  by (simp add: file_write_def)

lemma dirs_file_write [simp]: "dirs (file_write p t w) = dirs w"
  by (simp add: file_write_def)

lemma files_file_write_Some:
  "files w p = Some old \<Longrightarrow> files (file_write p t w) = (files w)(p \<mapsto> old @ t)"
  by (simp add: file_write_def)

lemma files_file_write_other:
  "q \<noteq> p \<Longrightarrow> files (file_write p t w) q = files w q"
  by (simp add: file_write_def)

lemma trace_fold_write:
  "trace (fold (\<lambda>row. file_write p (g row)) rs w) = trace w @ map (\<lambda>row. Write p (g row)) rs"
  by (induction rs arbitrary: w) simp_all

lemma dirs_fold_write:
  "dirs (fold (\<lambda>row. file_write p (g row)) rs w) = dirs w"
  by (induction rs arbitrary: w) simp_all

lemma files_fold_write:
  "files w p = Some old \<Longrightarrow>
   files (fold (\<lambda>row. file_write p (g row)) rs w) = (files w)(p \<mapsto> old @ concat (map g rs))"
proof (induction rs arbitrary: w old)
  case Nil
  then show ?case by (simp add: fun_upd_idem)
next
  case (Cons r rs)
  have "files (file_write p (g r) w) p = Some (old @ g r)"
    using Cons.prems by (simp add: files_file_write_Some)
  from Cons.IH [OF this] have
    "files (fold (\<lambda>row. file_write p (g row)) rs (file_write p (g r) w)) =
       (files (file_write p (g r) w))(p \<mapsto> (old @ g r) @ concat (map g rs))" .
  also have "files (file_write p (g r) w) = (files w)(p \<mapsto> old @ g r)"
    using Cons.prems by (rule files_file_write_Some)
  finally show ?case by (simp add: fun_eq_iff)
qed

lemma trace_fold_rows:
  "trace (fold (\<lambda>(i, rs) w. fold (\<lambda>row. file_write p (g row)) rs w) res w) =
     trace w @ map (\<lambda>row. Write p (g row)) (concat (map snd res))"
  by (induction res arbitrary: w) (auto simp: trace_fold_write)

lemma dirs_fold_rows:
  "dirs (fold (\<lambda>(i, rs) w. fold (\<lambda>row. file_write p (g row)) rs w) res w) = dirs w"
  by (induction res arbitrary: w) (auto simp: dirs_fold_write)

lemma files_fold_rows:
  "files w p = Some old \<Longrightarrow>
   files (fold (\<lambda>(i, rs) w. fold (\<lambda>row. file_write p (g row)) rs w) res w) =
     (files w)(p \<mapsto> old @ concat (map g (concat (map snd res))))"
proof (induction res arbitrary: w old)
  case Nil
  then show ?case by (simp add: fun_upd_idem)
next
  case (Cons r res)
  obtain i rs where r: "r = (i, rs)" by (cases r)
  let ?w = "fold (\<lambda>row. file_write p (g row)) rs w"
  have f: "files ?w = (files w)(p \<mapsto> old @ concat (map g rs))"
    using Cons.prems by (rule files_fold_write)
  then have "files ?w p = Some (old @ concat (map g rs))" by simp
  from Cons.IH [OF this] have
    "files (fold (\<lambda>(i, rs) w. fold (\<lambda>row. file_write p (g row)) rs w) res ?w) =
       (files ?w)(p \<mapsto> (old @ concat (map g rs)) @ concat (map g (concat (map snd res))))" .
  then show ?case unfolding f by (simp add: r fun_eq_iff)
qed

lemma trace_fold_submit:
  "trace (fold (\<lambda>(idx, url). emit (Submit idx url)) js w) =
     trace w @ map (\<lambda>(idx, url). Submit idx url) js"
  by (induction js arbitrary: w) auto

lemma files_fold_submit:
  "files (fold (\<lambda>(idx, url). emit (Submit idx url)) js w) = files w"
  by (induction js arbitrary: w) auto

lemma dirs_fold_submit:
  "dirs (fold (\<lambda>(idx, url). emit (Submit idx url)) js w) = dirs w"
  by (induction js arbitrary: w) auto

lemma trace_fold_print:
  "trace (fold (\<lambda>m. emit (Print m)) ms w) = trace w @ map Print ms"
  by (induction ms arbitrary: w) auto

lemma files_fold_print:
  "files (fold (\<lambda>m. emit (Print m)) ms w) = files w"
  by (induction ms arbitrary: w) auto

lemma dirs_fold_print:
  "dirs (fold (\<lambda>m. emit (Print m)) ms w) = dirs w"
  by (induction ms arbitrary: w) auto

lemma trace_fold_prints:
  "trace (fold (\<lambda>(out, r) w. fold (\<lambda>m. emit (Print m)) out w) cs w) =
     trace w @ map Print (concat (map fst cs))"
  by (induction cs arbitrary: w) (auto simp: trace_fold_print)

lemma files_fold_prints:
  "files (fold (\<lambda>(out, r) w. fold (\<lambda>m. emit (Print m)) out w) cs w) = files w"
  by (induction cs arbitrary: w) (auto simp: files_fold_print)

lemma dirs_fold_prints:
  "dirs (fold (\<lambda>(out, r) w. fold (\<lambda>m. emit (Print m)) out w) cs w) = dirs w"
  by (induction cs arbitrary: w) (auto simp: dirs_fold_print)

lemma open_write_Inr:
  assumes "open_write p w = Inr w'"
  shows "trace w' = trace w @ [OpenWrite p]" and "files w' = (files w)(p \<mapsto> [])"
    and "dirs w' = dirs w"
  using assms by (auto simp: open_write_def split: if_splits)

lemma open_write_same_state:
  assumes "files v = files w" and "dirs v = dirs w"
  shows "(\<exists>v'. open_write p v = Inr v') \<longleftrightarrow> (\<exists>w'. open_write p w = Inr w')"
    and "open_write p v = Inl e \<longleftrightarrow> open_write p w = Inl e"
  using assms by (auto simp: open_write_def is_dir_def split: if_splits)

lemma mkdir_Inr:
  assumes "mkdir p w = Inr w'"
  shows "trace w' = trace w @ [Mkdir p]" and "files w' = files w"
    and "dirs w' = dirs w \<union> set (ancestors p)"
  using assms by (auto simp: mkdir_def split: if_splits)

lemma mkdir_free:
  assumes "files w p = None" and "\<forall>q \<in> set (ancestors p). files w q = None"
  shows "mkdir p w = Inr (emit (Mkdir p) (w\<lparr>dirs := dirs w \<union> set (ancestors p)\<rparr>))"
  using assms by (simp add: mkdir_def)

lemma collect_all:
  "\<forall>c \<in> set cs. is_result (snd c) \<Longrightarrow>
   collect cs acc = Inr (acc @ map (\<lambda>c. case snd c of Inr x \<Rightarrow> x) cs)"
  by (induction cs acc rule: collect.induct) (auto simp: is_result_def)

lemma collect_some:
  "\<exists>c \<in> set cs. \<not> is_result (snd c) \<Longrightarrow> \<exists>e. collect cs acc = Inl e"
  by (induction cs acc rule: collect.induct) (auto simp: is_result_def)

lemma process_index:
  "snd (process env n code fields' betfair idx url) = Inr x \<Longrightarrow> fst x = idx"
  by (auto simp: process_def Let_def split: sum.splits option.splits if_splits exn.splits)

lemma executors_append: "executors (xs @ ys) = executors xs @ executors ys"
  by (simp add: executors_def)

lemma submits_append: "submits (xs @ ys) = submits xs @ submits ys"
  by (simp add: submits_def)

lemma betfair_builds_append: "betfair_builds (xs @ ys) = betfair_builds xs @ betfair_builds ys"
  by (simp add: betfair_builds_def)

lemma written_paths_append: "written_paths (xs @ ys) = written_paths xs @ written_paths ys"
  by (simp add: written_paths_def)

lemma executors_none: "(\<And>n. Executor n \<notin> set t) \<Longrightarrow> executors t = []"
  by (induction t) (auto simp: executors_def split: effect.splits)

lemma submits_none: "(\<And>i u. Submit i u \<notin> set t) \<Longrightarrow> submits t = []"
  by (induction t) (auto simp: submits_def split: effect.splits)

lemma betfair_builds_none: "(\<And>us. BetfairBuild us \<notin> set t) \<Longrightarrow> betfair_builds t = []"
  by (induction t) (auto simp: betfair_builds_def split: effect.splits)

lemma written_paths_only:
  "(\<And>q x. OpenWrite q \<in> set t \<or> Write q x \<in> set t \<Longrightarrow> q = p) \<Longrightarrow>
   set (written_paths t) \<subseteq> {p}"
  by (induction t) (auto simp: written_paths_def split: effect.splits)

lemma fetch_betfair_data_facts:
  assumes "fetch_betfair_data env t urls folder file_name code w = (r, w')"
  shows "\<exists>ev. trace w' = trace w @ ev \<and> executors ev = [] \<and> submits ev = [] \<and>
           set (written_paths ev) \<subseteq> {betfair_path folder code file_name} \<and>
           betfair_builds ev = [urls] \<and> dirs w \<subseteq> dirs w' \<and>
           (\<forall>q. q \<noteq> betfair_path folder code file_name \<longrightarrow> files w' q = files w q) \<and>
           (case r of
              Inl e \<Rightarrow> True
            | Inr b \<Rightarrow>
                Betfair env urls = Inr b \<and>
                files w' (betfair_path folder code file_name) =
                  Some (betfair_header t @ concat (map betfair_line (rows b))))"
proof -
  let ?f = "betfair_path folder code file_name"
  let ?w2 = "emit (BetfairBuild urls) (emit (Print GettingBetfair) w)"
  let ?ev2 = "[Print GettingBetfair, BetfairBuild urls]"
  have obs2: "executors ?ev2 = []" "submits ?ev2 = []" "written_paths ?ev2 = []"
    "betfair_builds ?ev2 = [urls]"
    by (simp_all add: executors_def submits_def written_paths_def betfair_builds_def)
  show ?thesis
  proof (cases "Betfair env urls")
    case (Inl e)
    then have "r = Inl e" "w' = ?w2"
      using assms by (simp_all add: fetch_betfair_data_def Let_def)
    then show ?thesis using obs2 by (intro exI [of _ ?ev2]) simp
  next
    case b: (Inr b)
    show ?thesis
    proof (cases "mkdir (betfair_dir folder code) ?w2")
      case (Inl e)
      then have "r = Inl e" "w' = ?w2"
        using assms b by (simp_all add: fetch_betfair_data_def Let_def)
      then show ?thesis using obs2 by (intro exI [of _ ?ev2]) simp
    next
      case m: (Inr w3)
      note w3 = mkdir_Inr [OF m]
      let ?ev3 = "?ev2 @ [Mkdir (betfair_dir folder code)]"
      have obs3: "executors ?ev3 = []" "submits ?ev3 = []" "written_paths ?ev3 = []"
        "betfair_builds ?ev3 = [urls]"
        by (simp_all add: executors_def submits_def written_paths_def betfair_builds_def)
      show ?thesis
      proof (cases "open_write ?f w3")
        case (Inl e)
        then have "r = Inl e" "w' = w3"
          using assms b m by (simp_all add: fetch_betfair_data_def Let_def)
        then show ?thesis using obs3 w3 by (intro exI [of _ ?ev3]) auto
      next
        case op: (Inr w4)
        note w4 = open_write_Inr [OF op]
        let ?w5 = "file_write ?f (betfair_header t) w4"
        let ?w6 = "fold (\<lambda>row. file_write ?f (betfair_line row)) (rows b) ?w5"
        let ?ev = "?ev3 @ [OpenWrite ?f, Write ?f (betfair_header t)]
                     @ map (\<lambda>row. Write ?f (betfair_line row)) (rows b)"
        have r: "r = Inr b" "w' = ?w6"
          using assms b m op by (simp_all add: fetch_betfair_data_def Let_def)
        have tr: "trace ?w6 = trace w @ ?ev"
          by (simp add: trace_fold_write w4 w3)
        have e1: "executors ?ev = []" by (rule executors_none) auto
        have e2: "submits ?ev = []" by (rule submits_none) auto
        have e3: "set (written_paths ?ev) \<subseteq> {?f}" by (rule written_paths_only) auto
        have e4: "betfair_builds ?ev = [urls]"
          unfolding betfair_builds_append
          by (simp add: betfair_builds_none) (simp add: betfair_builds_def)
        have d: "dirs w \<subseteq> dirs ?w6" by (auto simp: dirs_fold_write w4 w3)
        have f5: "files ?w5 ?f = Some (betfair_header t)"
          by (simp add: file_write_def w4)
        have f6: "files ?w6 = (files ?w5)(?f \<mapsto> betfair_header t @ concat (map betfair_line (rows b)))"
          using f5 by (rule files_fold_write)
        have other: "\<forall>q. q \<noteq> ?f \<longrightarrow> files ?w6 q = files w q"
          unfolding f6 by (simp add: file_write_def w4 w3)
        have art: "files ?w6 ?f = Some (betfair_header t @ concat (map betfair_line (rows b)))"
          unfolding f6 by simp
        show ?thesis
          unfolding r using tr e1 e2 e3 e4 d other art b
          by (intro exI [of _ ?ev]) simp
      qed
    qed
  qed
qed

lemma betfair_step_off:
  "\<not> enrichment_on env fb \<Longrightarrow> betfair_step env fb urls folder file_name code w = (Inr None, w)"
  by (auto simp: enrichment_on_def betfair_step_def split: option.splits)

lemma betfair_step_facts:
  assumes "betfair_step env fb urls folder file_name code w = (r, w')"
  shows "\<exists>ev. trace w' = trace w @ ev \<and> executors ev = [] \<and> submits ev = [] \<and>
           set (written_paths ev) \<subseteq> {betfair_path folder code file_name} \<and>
           betfair_builds ev = (if enrichment_on env fb then [urls] else []) \<and>
           dirs w \<subseteq> dirs w' \<and>
           (\<forall>q. q \<noteq> betfair_path folder code file_name \<longrightarrow> files w' q = files w q) \<and>
           (\<forall>b. r = Inr b \<longrightarrow> b = side_dataset env fb urls)"
proof (cases "enrichment_on env fb")
  case False
  then have "r = Inr None" "w' = w"
    using assms betfair_step_off [OF False, of urls folder file_name code w] by simp_all
  moreover have "side_dataset env fb urls = None"
    using False by (auto simp: enrichment_on_def side_dataset_def split: option.splits)
  ultimately show ?thesis using False
    by (intro exI [of _ "[]"])
      (simp add: executors_def submits_def written_paths_def betfair_builds_def)
next
  case True
  then obtain t where t: "settings_toml env = Some t" "fb" "betfair_data t"
    by (auto simp: enrichment_on_def split: option.splits)
  obtain r0 w0 where f: "fetch_betfair_data env t urls folder file_name code w = (r0, w0)"
    by (cases "fetch_betfair_data env t urls folder file_name code w")
  have rw: "w' = w0" "r = (case r0 of Inl e \<Rightarrow> Inl e | Inr b \<Rightarrow> Inr (Some b))"
    using assms t f by (auto simp: betfair_step_def split: sum.splits)
  from fetch_betfair_data_facts [OF f] obtain ev where
    ev: "trace w0 = trace w @ ev" "executors ev = []" "submits ev = []"
      "set (written_paths ev) \<subseteq> {betfair_path folder code file_name}"
      "betfair_builds ev = [urls]" "dirs w \<subseteq> dirs w0"
      "\<forall>q. q \<noteq> betfair_path folder code file_name \<longrightarrow> files w0 q = files w q"
      "case r0 of Inl e \<Rightarrow> True | Inr b \<Rightarrow> Betfair env urls = Inr b \<and>
                files w0 (betfair_path folder code file_name) =
                  Some (betfair_header t @ concat (map betfair_line (rows b)))"
    by blast
  have sd: "\<forall>b. r = Inr b \<longrightarrow> b = side_dataset env fb urls"
    using rw(2) ev(8) t by (auto simp: side_dataset_def split: sum.splits)
  show ?thesis
    unfolding rw(1) using ev(1-7) sd True by (intro exI [of _ ev]) simp
qed

lemma betfair_step_artifact:
  assumes "settings_toml env = Some t" and "fb" and "betfair_data t"
    and "betfair_step env fb urls folder file_name code w = (Inr b, w')"
  shows "\<exists>bf. Betfair env urls = Inr bf \<and> b = Some bf \<and>
           files w' (betfair_path folder code file_name) =
             Some (betfair_header t @ concat (map betfair_line (rows bf)))"
proof -
  obtain r0 w0 where f: "fetch_betfair_data env t urls folder file_name code w = (r0, w0)"
    by (cases "fetch_betfair_data env t urls folder file_name code w")
  from assms f obtain bf where bf: "r0 = Inr bf" "b = Some bf" "w' = w0"
    by (auto simp: betfair_step_def split: sum.splits)
  from fetch_betfair_data_facts [OF f] bf show ?thesis by auto
qed

lemma prepare_facts:
  assumes "prepare env fb urls folder file_name code fs ds = (r, w2)"
  shows "\<exists>ev. trace w2 = ev \<and> executors ev = [] \<and> submits ev = [] \<and>
           set (written_paths ev) \<subseteq> {betfair_path folder code file_name} \<and>
           (\<forall>q. q \<noteq> betfair_path folder code file_name \<longrightarrow> files w2 q = fs q) \<and>
           (\<forall>b. r = Inr b \<longrightarrow>
              b = side_dataset env fb urls \<and>
              set (ancestors (out_dir folder code)) \<subseteq> dirs w2 \<and>
              betfair_builds ev = (if enrichment_on env fb then [urls] else []))"
proof (cases "mkdir (out_dir folder code) \<lparr>files = fs, trace = [], dirs = ds\<rparr>")
  case (Inl e)
  then have "r = Inl e" "w2 = \<lparr>files = fs, trace = [], dirs = ds\<rparr>"
    using assms by (simp_all add: prepare_def)
  then show ?thesis
    by (simp add: executors_def submits_def written_paths_def)
next
  case (Inr w1)
  note w1 = mkdir_Inr [OF Inr]
  have b: "betfair_step env fb urls folder file_name code w1 = (r, w2)"
    using assms Inr by (simp add: prepare_def)
  from betfair_step_facts [OF b] obtain ev where
    ev: "trace w2 = trace w1 @ ev" "executors ev = []" "submits ev = []"
      "set (written_paths ev) \<subseteq> {betfair_path folder code file_name}"
      "betfair_builds ev = (if enrichment_on env fb then [urls] else [])"
      "dirs w1 \<subseteq> dirs w2"
      "\<forall>q. q \<noteq> betfair_path folder code file_name \<longrightarrow> files w2 q = files w1 q"
      "\<forall>b. r = Inr b \<longrightarrow> b = side_dataset env fb urls"
    by blast
  have tr: "trace w2 = [Mkdir (out_dir folder code)] @ ev"
    using ev(1) w1(1) by simp
  have "executors ([Mkdir (out_dir folder code)] @ ev) = []"
    "submits ([Mkdir (out_dir folder code)] @ ev) = []"
    "written_paths ([Mkdir (out_dir folder code)] @ ev) = written_paths ev"
    "betfair_builds ([Mkdir (out_dir folder code)] @ ev) = betfair_builds ev"
    using ev(2,3)
    by (simp_all add: executors_def submits_def written_paths_def betfair_builds_def)
  then show ?thesis
    unfolding tr using ev(4-8) w1(2,3) by auto
qed

lemma prepare_off:
  assumes "\<not> enrichment_on env fb"
    and "mkdir (out_dir folder code) \<lparr>files = fs, trace = [], dirs = ds\<rparr> = Inr w1"
  shows "prepare env fb urls folder file_name code fs ds = (Inr None, w1)"
  using assms by (simp add: prepare_def betfair_step_off)

lemma scrape_races_prepare_raises:
  "prepare env fb race_urls folder file_name code fs ds = (Inl e, w2) \<Longrightarrow>
   scrape_races env ac race_urls folder file_name ext code fields' hdr fb jobs fs ds =
     (Uncaught e, w2)"
  by (simp add: scrape_races_def)

lemma scrape_races_empty:
  "prepare env fb [] folder file_name code fs ds = (Inr b, w2) \<Longrightarrow>
   scrape_races env ac [] folder file_name ext code fields' hdr fb jobs fs ds =
     (Returned, emit (Print NoRacesFound) w2)"
  by (simp add: scrape_races_def)

lemma scrape_races_nonempty:
  assumes "race_urls \<noteq> []"
    and "prepare env fb race_urls folder file_name code fs ds = (Inr b, w2)"
  shows "scrape_races env ac race_urls folder file_name ext code fields' hdr fb jobs fs ds =
    (let w5 = fold (\<lambda>(idx, url). emit (Submit idx url)) (enumerate1 race_urls)
                (emit (Executor (max 1 (min 10 jobs)))
                   (emit (Print (Scraping (length race_urls) (max 1 (min 10 jobs)))) w2));
         completed = ac (map (\<lambda>(idx, url). process env (length race_urls) code fields'
                                (side_dataset env fb race_urls) idx url) (enumerate1 race_urls));
         w6 = fold (\<lambda>(out, r) w. fold (\<lambda>m. emit (Print m)) out w) completed w5
     in case collect completed [] of
          Inl exc \<Rightarrow> (Uncaught exc, w6)
        | Inr results \<Rightarrow>
            write_results (file_path folder code file_name ext) hdr (sort_key fst results) w6)"
proof -
  from prepare_facts [OF assms(2)] have "b = side_dataset env fb race_urls" by auto
  then show ?thesis
    using assms by (simp add: scrape_races_def Let_def split: sum.splits)
qed

lemma write_results_opened:
  assumes "open_write p w = Inr w7"
  shows "fst (write_results p hdr results w) =
           (if take 1 p = [''..''] then Returned else Uncaught ValueError)"
    and "files (snd (write_results p hdr results w)) p =
           Some (hdr @ newline @
                 concat (map (\<lambda>row. row @ newline) (concat (map snd results))))"
    and "\<exists>ev. trace (snd (write_results p hdr results w)) = trace w @ ev \<and> executors ev = []"
proof -
  note w7 = open_write_Inr [OF assms]
  let ?w8 = "file_write p (hdr @ newline) w7"
  let ?w9 = "fold (\<lambda>(_, rs) w. fold (\<lambda>row. file_write p (row @ newline)) rs w) results ?w8"
  have f8: "files ?w8 p = Some (hdr @ newline)"
    by (simp add: file_write_def w7)
  have f9: "files ?w9 p =
      Some (hdr @ newline @ concat (map (\<lambda>row. row @ newline) (concat (map snd results))))"
    using files_fold_rows [OF f8, of "\<lambda>row. row @ newline" results] by simp
  show "fst (write_results p hdr results w) =
           (if take 1 p = [''..''] then Returned else Uncaught ValueError)"
    using assms by (simp add: write_results_def Let_def)
  show "files (snd (write_results p hdr results w)) p =
           Some (hdr @ newline @
                 concat (map (\<lambda>row. row @ newline) (concat (map snd results))))"
    using assms f9 by (simp add: write_results_def Let_def)
  let ?ev = "[OpenWrite p, Write p (hdr @ newline)]
      @ map (\<lambda>row. Write p (row @ newline)) (concat (map snd results))
      @ (if take 1 p = [''..''] then [Print (Finished (drop 1 p))] else [])"
  have "trace (snd (write_results p hdr results w)) = trace w @ ?ev"
    using assms by (simp add: write_results_def Let_def trace_fold_rows w7)
  moreover have "executors ?ev = []" by (rule executors_none) (auto split: if_splits)
  ultimately show "\<exists>ev. trace (snd (write_results p hdr results w)) = trace w @ ev \<and>
      executors ev = []"
    by blast
qed

lemma write_results_refused:
  "open_write p w = Inl e \<Longrightarrow> write_results p hdr results w = (Uncaught e, w)"
  by (simp add: write_results_def)

lemma map_fst_enumerate1: "map fst (enumerate1 xs) = [1..<Suc (length xs)]"
  by (simp add: enumerate1_def)

lemma job_results_alt:
  "job_results env code fields' fb race_urls =
     map snd (map (\<lambda>(idx, url). process env (length race_urls) code fields'
                     (side_dataset env fb race_urls) idx url) (enumerate1 race_urls))"
  by (simp add: job_results_def case_prod_unfold comp_def)

lemma sorted_results:
  assumes "\<forall>c \<in> set (map (\<lambda>(idx, url). process env n code fields' b idx url) js). is_result (snd c)"
  shows "map fst (map (\<lambda>c. case snd c of Inr x \<Rightarrow> x)
           (map (\<lambda>(idx, url). process env n code fields' b idx url) js)) = map fst js"
  using assms
proof (induction js)
  case Nil
  then show ?case by simp
next
  case (Cons j js)
  obtain idx url where j: "j = (idx, url)" by (cases j)
  from Cons.prems have "is_result (snd (process env n code fields' b idx url))" by (simp add: j)
  then obtain x where x: "snd (process env n code fields' b idx url) = Inr x"
    by (auto simp: is_result_def split: sum.splits)
  then have "fst x = idx" by (rule process_index)
  then show ?case using Cons x by (simp add: j)
qed

lemma rows_of_results:
  "\<forall>c \<in> set ps. is_result (snd c) \<Longrightarrow>
   concat (map snd (map (\<lambda>c. case snd c of Inr x \<Rightarrow> x) ps)) = concat (map rows_of (map snd ps))"
  by (induction ps) (auto simp: rows_of_def is_result_def split: sum.splits)

text \<open>
  When every job returns, the sorted results are the results in the order of the input,
  whatever the completion order; the world before the output file is opened has the files
  and directories left by lines 99 to 121.
\<close>

lemma scrape_races_all_results:
  assumes perm: "\<And>xs. mset (ac xs) = mset xs"
    and ne: "race_urls \<noteq> []"
    and pr: "prepare env fb race_urls folder file_name code fs ds = (Inr b, w2)"
    and ok: "\<forall>r \<in> set (job_results env code fields' fb race_urls). is_result r"
  shows "\<exists>w6 expected.
           scrape_races env ac race_urls folder file_name ext code fields' hdr fb jobs fs ds =
             write_results (file_path folder code file_name ext) hdr expected w6 \<and>
           files w6 = files w2 \<and> dirs w6 = dirs w2 \<and>
           concat (map snd expected) =
             concat (map rows_of (job_results env code fields' fb race_urls)) \<and>
           (\<exists>pre post. trace w6 = pre @ [Executor (max 1 (min 10 jobs))] @ post \<and>
              executors pre = [] \<and> executors post = [])"
proof -
  let ?procs = "map (\<lambda>(idx, url). process env (length race_urls) code fields'
                        (side_dataset env fb race_urls) idx url) (enumerate1 race_urls)"
  let ?completed = "ac ?procs"
  let ?val = "\<lambda>c :: msg list \<times> (exn + nat \<times> string list). case snd c of Inr x \<Rightarrow> x"
  let ?expected = "map ?val ?procs"
  have jr: "job_results env code fields' fb race_urls = map snd ?procs"
    by (rule job_results_alt)
  have setc: "set ?completed = set ?procs"
    using perm [of ?procs] by (rule mset_eq_setD)
  have okp: "\<forall>c \<in> set ?procs. is_result (snd c)"
    using ok unfolding jr by simp
  then have okc: "\<forall>c \<in> set ?completed. is_result (snd c)"
    using setc by simp
  have col: "collect ?completed [] = Inr (map ?val ?completed)"
    using collect_all [OF okc, of "[]"] by simp
  have ms: "mset (map ?val ?completed) = mset ?expected"
    by (simp only: mset_map perm)
  have fsts: "map fst ?expected = [1..<Suc (length race_urls)]"
    using sorted_results [OF okp] by (simp add: map_fst_enumerate1)
  have srt: "sorted (map fst ?expected)" unfolding fsts by (rule sorted_upt)
  have "distinct (map fst ?expected)" unfolding fsts by (rule distinct_upt)
  then have "inj_on fst (set ?expected)" by (blast dest: distinct_map [THEN iffD1])
  moreover have "set (map ?val ?completed) = set ?expected"
    using ms by (rule mset_eq_setD)
  ultimately have inj: "inj_on fst (set (map ?val ?completed))" by simp
  have sk: "sort_key fst (map ?val ?completed) = ?expected"
    using ms inj srt by (rule sort_key_inj_key_eq)
  have rows: "concat (map snd ?expected) =
      concat (map rows_of (job_results env code fields' fb race_urls))"
    unfolding jr using okp by (rule rows_of_results)
  define expected where "expected = ?expected"
  define w6 where "w6 = fold (\<lambda>(out, r) w. fold (\<lambda>m. emit (Print m)) out w) ?completed
    (fold (\<lambda>(idx, url). emit (Submit idx url)) (enumerate1 race_urls)
                (emit (Executor (max 1 (min 10 jobs)))
                   (emit (Print (Scraping (length race_urls) (max 1 (min 10 jobs)))) w2)))"
  have eq: "scrape_races env ac race_urls folder file_name ext code fields' hdr fb jobs fs ds =
      write_results (file_path folder code file_name ext) hdr expected w6"
    unfolding scrape_races_nonempty [OF ne pr] Let_def w6_def [symmetric] col expected_def
    by (simp add: sk)
  have st: "files w6 = files w2" "dirs w6 = dirs w2"
    unfolding w6_def by (simp_all add: files_fold_prints files_fold_submit dirs_fold_prints
        dirs_fold_submit)
  from prepare_facts [OF pr] have pre: "executors (trace w2) = []" by auto
  let ?pre = "trace w2 @ [Print (Scraping (length race_urls) (max 1 (min 10 jobs)))]"
  let ?post = "map (\<lambda>(idx, url). Submit idx url) (enumerate1 race_urls)
                @ map Print (concat (map fst ?completed))"
  have tr: "trace w6 = ?pre @ [Executor (max 1 (min 10 jobs))] @ ?post"
    unfolding w6_def by (simp add: trace_fold_prints trace_fold_submit)
  have e1: "executors ?pre = []"
    unfolding executors_append using pre by (simp add: executors_def)
  have e2: "executors ?post = []" by (rule executors_none) auto
  have rows': "concat (map snd expected) =
      concat (map rows_of (job_results env code fields' fb race_urls))"
    unfolding expected_def by (rule rows)
  show ?thesis
    using eq st rows' tr e1 e2 by blast
qed

lemma scrape_races_some_exception:
  assumes perm: "\<And>xs. mset (ac xs) = mset xs"
    and ne: "race_urls \<noteq> []"
    and pr: "prepare env fb race_urls folder file_name code fs ds = (Inr b, w2)"
    and bad: "\<exists>r \<in> set (job_results env code fields' fb race_urls). \<not> is_result r"
  shows "\<exists>e w6.
           scrape_races env ac race_urls folder file_name ext code fields' hdr fb jobs fs ds =
             (Uncaught e, w6) \<and>
           files w6 = files w2 \<and>
           (\<exists>pre post. trace w6 = pre @ [Executor (max 1 (min 10 jobs))] @ post \<and>
              executors pre = [] \<and> executors post = [])"
proof -
  let ?procs = "map (\<lambda>(idx, url). process env (length race_urls) code fields'
                        (side_dataset env fb race_urls) idx url) (enumerate1 race_urls)"
  let ?completed = "ac ?procs"
  have jr: "job_results env code fields' fb race_urls = map snd ?procs"
    by (rule job_results_alt)
  have setc: "set ?completed = set ?procs"
    using perm [of ?procs] by (rule mset_eq_setD)
  have "\<exists>c \<in> set ?procs. \<not> is_result (snd c)"
    using bad unfolding jr by simp
  then have "\<exists>c \<in> set ?completed. \<not> is_result (snd c)"
    using setc by simp
  then obtain e where col: "collect ?completed [] = Inl e"
    using collect_some by blast
  define w6 where "w6 = fold (\<lambda>(out, r) w. fold (\<lambda>m. emit (Print m)) out w) ?completed
    (fold (\<lambda>(idx, url). emit (Submit idx url)) (enumerate1 race_urls)
                (emit (Executor (max 1 (min 10 jobs)))
                   (emit (Print (Scraping (length race_urls) (max 1 (min 10 jobs)))) w2)))"
  have eq: "scrape_races env ac race_urls folder file_name ext code fields' hdr fb jobs fs ds =
      (Uncaught e, w6)"
    unfolding scrape_races_nonempty [OF ne pr] Let_def w6_def [symmetric] col by simp
  have st: "files w6 = files w2"
    unfolding w6_def by (simp add: files_fold_prints files_fold_submit)
  from prepare_facts [OF pr] have pre: "executors (trace w2) = []" by auto
  let ?pre = "trace w2 @ [Print (Scraping (length race_urls) (max 1 (min 10 jobs)))]"
  let ?post = "map (\<lambda>(idx, url). Submit idx url) (enumerate1 race_urls)
                @ map Print (concat (map fst ?completed))"
  have tr: "trace w6 = ?pre @ [Executor (max 1 (min 10 jobs))] @ ?post"
    unfolding w6_def by (simp add: trace_fold_prints trace_fold_submit)
  have e1: "executors ?pre = []"
    unfolding executors_append using pre by (simp add: executors_def)
  have e2: "executors ?post = []" by (rule executors_none) auto
  show ?thesis using eq st tr e1 e2 by blast
qed

lemma executors_scrape_races_nonempty:
  assumes ne: "race_urls \<noteq> []"
    and pr: "prepare env fb race_urls folder file_name code fs ds = (Inr b, w2)"
  shows "executors (trace (snd (scrape_races env ac race_urls folder file_name ext code fields'
                                   hdr fb jobs fs ds))) = [max 1 (min 10 jobs)]"
proof -
  let ?j = "max 1 (min 10 jobs)"
  let ?completed = "ac (map (\<lambda>(idx, url). process env (length race_urls) code fields'
                                (side_dataset env fb race_urls) idx url) (enumerate1 race_urls))"
  define w6 where "w6 = fold (\<lambda>(out, r) w. fold (\<lambda>m. emit (Print m)) out w) ?completed
    (fold (\<lambda>(idx, url). emit (Submit idx url)) (enumerate1 race_urls)
                (emit (Executor ?j) (emit (Print (Scraping (length race_urls) ?j)) w2)))"
  from prepare_facts [OF pr] have pre: "executors (trace w2) = []" by auto
  let ?pre = "trace w2 @ [Print (Scraping (length race_urls) ?j)]"
  let ?post = "map (\<lambda>(idx, url). Submit idx url) (enumerate1 race_urls)
                @ map Print (concat (map fst ?completed))"
  have tr: "trace w6 = ?pre @ [Executor ?j] @ ?post"
    unfolding w6_def by (simp add: trace_fold_prints trace_fold_submit)
  have e1: "executors ?pre = []"
    unfolding executors_append using pre by (simp add: executors_def)
  have e2: "executors ?post = []" by (rule executors_none) auto
  have "executors (trace w6) = executors ?pre @ executors [Executor ?j] @ executors ?post"
    unfolding tr by (simp only: executors_append)
  moreover have "executors [Executor ?j] = [?j]" by (simp add: executors_def)
  ultimately have e6: "executors (trace w6) = [?j]" using e1 e2 by simp
  show ?thesis
  proof (cases "collect ?completed []")
    case (Inl e)
    then have "scrape_races env ac race_urls folder file_name ext code fields' hdr fb jobs fs ds
        = (Uncaught e, w6)"
      unfolding scrape_races_nonempty [OF ne pr] Let_def w6_def [symmetric] by simp
    then show ?thesis using e6 by simp
  next
    case (Inr results)
    let ?p = "file_path folder code file_name ext"
    have eq: "scrape_races env ac race_urls folder file_name ext code fields' hdr fb jobs fs ds
        = write_results ?p hdr (sort_key fst results) w6"
      unfolding scrape_races_nonempty [OF ne pr] Let_def w6_def [symmetric] Inr by simp
    show ?thesis
    proof (cases "open_write ?p w6")
      case (Inl e)
      then show ?thesis unfolding eq using e6 by (simp add: write_results_refused)
    next
      case op: (Inr w7)
      from write_results_opened(3) [OF op, of hdr "sort_key fst results"] obtain ev where
        "trace (snd (write_results ?p hdr (sort_key fst results) w6)) = trace w6 @ ev"
        "executors ev = []" by blast
      then show ?thesis unfolding eq using e6 by (simp add: executors_append)
    qed
  qed
qed

lemma executors_scrape_races:
  "executors (trace (snd (scrape_races env ac race_urls folder file_name ext code fields'
                            hdr fb jobs fs ds))) =
     (if race_urls \<noteq> [] \<and> is_result (fst (prepare env fb race_urls folder file_name code fs ds))
      then [max 1 (min 10 jobs)] else [])"
proof -
  obtain r w2 where pr: "prepare env fb race_urls folder file_name code fs ds = (r, w2)"
    by (cases "prepare env fb race_urls folder file_name code fs ds")
  from prepare_facts [OF pr] have pre: "executors (trace w2) = []" by auto
  show ?thesis
  proof (cases r)
    case (Inl e)
    with pr have p': "prepare env fb race_urls folder file_name code fs ds = (Inl e, w2)" by simp
    from scrape_races_prepare_raises [OF p'] show ?thesis
      using pre p' by (simp add: is_result_def)
  next
    case (Inr b)
    show ?thesis
    proof (cases "race_urls = []")
      case True
      from pr Inr True have "prepare env fb [] folder file_name code fs ds = (Inr b, w2)"
        by simp
      from scrape_races_empty [OF this] show ?thesis
        using pre True by (simp add: executors_append) (simp add: executors_def)
    next
      case False
      from pr Inr have p': "prepare env fb race_urls folder file_name code fs ds = (Inr b, w2)"
        by simp
      from executors_scrape_races_nonempty [OF False p'] show ?thesis
        using False p' by (simp add: is_result_def)
    qed
  qed
qed

lemma subruns_append: "subruns (xs @ ys) = subruns xs @ subruns ys"
  by (simp add: subruns_def)

lemma main_subruns:
  assumes "fs (args_log a) = Some content"
    and "resolve_region (args_region a) (args_log a) = Inr (Some region)" and "region \<noteq> []"
    and "extract_dates fs (args_log a) = Inr dates" and "dates \<noteq> []"
    and "file_path_ok (args_log a)"
  shows "subruns (trace (snd (main run a fs))) =
           map (\<lambda>d. \<lparr>date_arg = str_replace CHR ''-'' ''/'' d, region_arg = region,
                      jobs_arg = max 1 (min 10 (args_jobs a))\<rparr>) dates"
proof -
  let ?b = "butlast (args_log a) @ [path_name (args_log a) @ ''.bak'']"
  let ?j = "max 1 (min 10 (args_jobs a))"
  let ?w3 = "\<lparr>files = fs(?b \<mapsto> content, args_log a \<mapsto> []),
              trace = [CopyFile (args_log a) ?b, Print (BackedUp ?b), WriteText (args_log a) []]\<rparr>"
  have m: "main run a fs = (Returned, emit (Print RetryComplete) (retry_dates run region ?j dates ?w3))"
    using assms by (rule main_proceeds)
  from retry_dates_trace [of run region ?j dates ?w3] obtain r where
    r: "trace (retry_dates run region ?j dates ?w3) = trace ?w3 @ r"
       "subruns r = map (\<lambda>d. \<lparr>date_arg = str_replace CHR ''-'' ''/'' d, region_arg = region, jobs_arg = ?j\<rparr>) dates"
    by blast
  have "trace (snd (main run a fs)) = trace ?w3 @ r @ [Print RetryComplete]"
    unfolding m using r(1) by simp
  then have "subruns (trace (snd (main run a fs))) = subruns (trace ?w3) @ subruns r @ subruns [Print RetryComplete]"
    by (simp only: subruns_append)
  then show ?thesis using r(2) by (simp add: subruns_def)
qed

lemma file_path_relative:
  assumes "segment_root folder = []" and "segment_root code = []"
    and "segment_root (file_name @ ''.'' @ ext) = []"
  shows "take 1 (file_path folder code file_name ext) = [''..'']"
proof -
  have "path_join [] ''../data'' = [''..'', ''data'']"
    by (simp add: path_join_def segment_root_def segment_parts_def)
  then show ?thesis
    using assms by (simp add: file_path_def out_dir_def path_join_def)
qed

lemma ex_job_results:
  "job_results ex_env ''flat'' [] False ex_urls =
     [Inr (1, [''u5,1'', ''u5,2'']), Inr (2, []), Inr (3, [''u6,1'', ''u6,2'']), Inr (4, []),
      Inr (5, [])]"
  by code_simp

lemma ex_paths:
  "out_dir ''dates/uk'' ''flat'' = [''..'', ''data'', ''dates'', ''uk'', ''flat'']"
  "file_path ''dates/uk'' ''flat'' ''uk-2024-05-01'' ''csv'' =
     [''..'', ''data'', ''dates'', ''uk'', ''flat'', ''uk-2024-05-01.csv'']"
  by code_simp+

lemma ex_prepare:
  "prepare ex_env False urls ''dates/uk'' ''uk-2024-05-01'' ''flat'' Map.empty {} =
     (Inr None,
      \<lparr>files = Map.empty, trace = [Mkdir [''..'', ''data'', ''dates'', ''uk'', ''flat'']],
       dirs = set (ancestors [''..'', ''data'', ''dates'', ''uk'', ''flat''])\<rparr>)"
proof -
  have off: "\<not> enrichment_on ex_env False" by (simp add: enrichment_on_def ex_env_def)
  have "mkdir (out_dir ''dates/uk'' ''flat'') \<lparr>files = Map.empty, trace = [], dirs = {}\<rparr> =
      Inr \<lparr>files = Map.empty, trace = [Mkdir [''..'', ''data'', ''dates'', ''uk'', ''flat'']],
           dirs = set (ancestors [''..'', ''data'', ''dates'', ''uk'', ''flat''])\<rparr>"
    unfolding ex_paths by (simp add: mkdir_def emit_def)
  with off show ?thesis by (rule prepare_off)
qed

lemma ex_open:
  "\<exists>w. open_write [''..'', ''data'', ''dates'', ''uk'', ''flat'', ''uk-2024-05-01.csv'']
         \<lparr>files = Map.empty, trace = [Mkdir [''..'', ''data'', ''dates'', ''uk'', ''flat'']],
          dirs = set (ancestors [''..'', ''data'', ''dates'', ''uk'', ''flat''])\<rparr> = Inr w"
  by (simp add: open_write_def is_dir_def ancestors_def)

subsection \<open>Claims about the scraper\<close>

text \<open>
  Claim C1. Take any completion order (\<open>as_completed\<close> rearranges the submitted jobs in
  any way) and a call that gets past lines 99 to 121. When every job returns and the
  output file can be opened, the file holds the header followed by the rows of the jobs in
  the order of the input sequence, all the rows of a job before those of any job with a
  larger index; the call then returns, or ends in the \<open>ValueError\<close> of line 177 when the
  output path does not start with \<open>..\<close>, which it does for relative names. Nothing is
  streamed: when some job raises, or the output file cannot be opened, the call ends with
  that exception and every file is as lines 99 to 121 left it.
\<close>

theorem scrape_races_rows_in_input_order:
  assumes "\<And>xs. mset (as_completed xs) = mset xs" and "race_urls \<noteq> []"
    and "prepare env fetch_betfair race_urls folder_name file_name code fs ds = (Inr betfair, w2)"
  shows
    "((\<forall>r \<in> set (job_results env code fields' fetch_betfair race_urls). is_result r) \<and>
      (\<exists>w. open_write (file_path folder_name code file_name file_extension) w2 = Inr w) \<longrightarrow>
        fst (scrape_races env as_completed race_urls folder_name file_name file_extension code
               fields' csv_header fetch_betfair jobs fs ds) =
          (if take 1 (file_path folder_name code file_name file_extension) = [''..'']
           then Returned else Uncaught ValueError) \<and>
        files (snd (scrape_races env as_completed race_urls folder_name file_name file_extension
                      code fields' csv_header fetch_betfair jobs fs ds))
          (file_path folder_name code file_name file_extension) =
        Some (csv_header @ newline @
              concat (map (\<lambda>row. row @ newline)
                (concat (map rows_of (job_results env code fields' fetch_betfair race_urls)))))) \<and>
     (\<forall>e. (\<forall>r \<in> set (job_results env code fields' fetch_betfair race_urls). is_result r) \<and>
          open_write (file_path folder_name code file_name file_extension) w2 = Inl e \<longrightarrow>
        fst (scrape_races env as_completed race_urls folder_name file_name file_extension code
               fields' csv_header fetch_betfair jobs fs ds) = Uncaught e \<and>
        files (snd (scrape_races env as_completed race_urls folder_name file_name file_extension
                      code fields' csv_header fetch_betfair jobs fs ds)) = files w2) \<and>
     ((\<exists>r \<in> set (job_results env code fields' fetch_betfair race_urls). \<not> is_result r) \<longrightarrow>
        (\<exists>e. fst (scrape_races env as_completed race_urls folder_name file_name file_extension
                     code fields' csv_header fetch_betfair jobs fs ds) = Uncaught e) \<and>
        files (snd (scrape_races env as_completed race_urls folder_name file_name file_extension
                      code fields' csv_header fetch_betfair jobs fs ds)) = files w2) \<and>
     (segment_root folder_name = [] \<and> segment_root code = [] \<and>
      segment_root (file_name @ ''.'' @ file_extension) = [] \<longrightarrow>
        take 1 (file_path folder_name code file_name file_extension) = [''..''])"
proof (intro conjI allI impI)
  let ?p = "file_path folder_name code file_name file_extension"
  let ?S = "scrape_races env as_completed race_urls folder_name file_name file_extension code
               fields' csv_header fetch_betfair jobs fs ds"
  {
    assume ok: "(\<forall>r \<in> set (job_results env code fields' fetch_betfair race_urls). is_result r) \<and>
      (\<exists>w. open_write ?p w2 = Inr w)"
    from scrape_races_all_results [OF assms conjunct1 [OF ok], of file_extension csv_header jobs]
    obtain w6 expected where
      eq: "?S = write_results ?p csv_header expected w6"
      and st: "files w6 = files w2" "dirs w6 = dirs w2"
      and rows: "concat (map snd expected) =
             concat (map rows_of (job_results env code fields' fetch_betfair race_urls))"
      by blast
    from ok open_write_same_state(1) [OF st, of ?p] obtain w7 where
      op: "open_write ?p w6 = Inr w7" by blast
    show "fst ?S = (if take 1 ?p = [''..''] then Returned else Uncaught ValueError)"
      unfolding eq by (rule write_results_opened(1) [OF op])
    show "files (snd ?S) ?p =
        Some (csv_header @ newline @
              concat (map (\<lambda>row. row @ newline)
                (concat (map rows_of (job_results env code fields' fetch_betfair race_urls)))))"
      unfolding eq rows [symmetric] by (rule write_results_opened(2) [OF op])
  }
  {
    fix e
    assume ok: "(\<forall>r \<in> set (job_results env code fields' fetch_betfair race_urls). is_result r) \<and>
      open_write ?p w2 = Inl e"
    from scrape_races_all_results [OF assms conjunct1 [OF ok], of file_extension csv_header jobs]
    obtain w6 expected where
      eq: "?S = write_results ?p csv_header expected w6"
      and st: "files w6 = files w2" "dirs w6 = dirs w2"
      by blast
    from ok open_write_same_state(2) [OF st, of ?p e] have op: "open_write ?p w6 = Inl e"
      by blast
    show "fst ?S = Uncaught e" "files (snd ?S) = files w2"
      unfolding eq write_results_refused [OF op] using st by simp_all
  }
  {
    assume bad: "\<exists>r \<in> set (job_results env code fields' fetch_betfair race_urls). \<not> is_result r"
    from scrape_races_some_exception [OF assms bad, of file_extension csv_header jobs]
    obtain e w6 where eq: "?S = (Uncaught e, w6)" and st: "files w6 = files w2" by blast
    show "\<exists>e. fst ?S = Uncaught e" "files (snd ?S) = files w2"
      unfolding eq using st by simp_all
  }
  {
    assume "segment_root folder_name = [] \<and> segment_root code = [] \<and>
      segment_root (file_name @ ''.'' @ file_extension) = []"
    then show "take 1 ?p = [''..'']" by (intro file_path_relative) simp_all
  }
qed

theorem scrape_races_rows_in_input_order_witness:
  "fst (scrape_races ex_env rev ex_urls ''dates/uk'' ''uk-2024-05-01'' ''csv'' ''flat'' [] ''h''
          False 6 Map.empty {}) = Returned \<and>
   files (snd (scrape_races ex_env rev ex_urls ''dates/uk'' ''uk-2024-05-01'' ''csv'' ''flat'' []
                 ''h'' False 6 Map.empty {}))
     [''..'', ''data'', ''dates'', ''uk'', ''flat'', ''uk-2024-05-01.csv''] =
   Some (''h'' @ newline @ ''u5,1'' @ newline @ ''u5,2'' @ newline @ ''u6,1'' @ newline
           @ ''u6,2'' @ newline)"
proof -
  have p: "\<And>xs :: (msg list \<times> (exn + nat \<times> string list)) list. mset (rev xs) = mset xs" by simp
  have n: "ex_urls \<noteq> []" by (simp add: ex_urls_def)
  have r: "\<forall>r \<in> set (job_results ex_env ''flat'' [] False ex_urls). is_result r"
    by (simp add: ex_job_results is_result_def)
  from scrape_races_rows_in_input_order [of rev ex_urls ex_env False "''dates/uk''"
      "''uk-2024-05-01''" "''flat''" Map.empty "{}" None _ "[]" "''csv''" "''h''" 6,
      OF p n ex_prepare]
  show ?thesis
    unfolding ex_paths using r ex_open
    by (simp add: ex_job_results rows_of_def)
qed

text \<open>
  Claim C2. The worker does not contain every exception: \<open>html.fromstring(resp.content)\<close>
  on line 140 stands between the two \<open>try\<close> blocks. For a page with an empty body the
  parser raises, the exception leaves \<open>process\<close>, \<open>future.result()\<close> raises it again
  in \<open>scrape_races\<close>, and the batch ends without an output file although the other job
  had rows.
\<close>

theorem process_fromstring_exception_escapes:
  "snd (process ex_env 2 ''flat'' [] None 2 ''u4'') = Inl ParserError \<and>
   fst (scrape_races ex_env rev [''u5'', ''u4''] ''2024'' ''f'' ''csv'' ''flat'' [] ''h'' False 6
          Map.empty {}) = Uncaught ParserError \<and>
   files (snd (scrape_races ex_env rev [''u5'', ''u4''] ''2024'' ''f'' ''csv'' ''flat'' [] ''h''
                 False 6 Map.empty {}))
     [''..'', ''data'', ''2024'', ''flat'', ''f.csv''] = None"
  by code_simp

text \<open>
  Claim C7. For a page that was fetched and parsed, the job returns all the rows of the race
  or none: under \<open>flat\<close> the rows are kept exactly when the race type is \<open>Flat\<close>, under
  \<open>jumps\<close> exactly when it is one of \<open>Chase\<close>, \<open>Hurdle\<close>, \<open>NH Flat\<close>; a mismatch
  gives the empty sequence, as a void race (or any other failure of the constructor) does.
\<close>

theorem process_discipline_filter:
  assumes "requests_get env url = Inr content" and "html_fromstring env content = Inr doc"
  shows "snd (process env n code fields' betfair idx url) =
     (case new_race env url doc code fields' betfair of
        Inl e \<Rightarrow> Inr (idx, [])
      | Inr race \<Rightarrow>
          Inr (idx,
            if code = ''flat'' then (if r_type race = ''Flat'' then csv_data race else [])
            else if code = ''jumps''
              then (if r_type race \<in> {''Chase'', ''Hurdle'', ''NH Flat''} then csv_data race
                    else [])
            else csv_data race))"
  using assms by (simp add: process_def Let_def split: sum.splits exn.splits)

theorem process_discipline_filter_witness:
  "snd (process ex_env 1 ''jumps'' [] None 1 ''u1'') = Inr (1, [''u1,1'', ''u1,2'']) \<and>
   snd (process ex_env 1 ''flat'' [] None 1 ''u1'') = Inr (1, []) \<and>
   snd (process ex_env 1 ''flat'' [] None 1 ''u5'') = Inr (1, [''u5,1'', ''u5,2'']) \<and>
   snd (process ex_env 1 ''jumps'' [] None 1 ''u5'') = Inr (1, []) \<and>
   snd (process ex_env 1 ''jumps'' [] None 1 ''u3'') = Inr (1, [])"
proof -
  have g: "\<And>u. u \<noteq> ''u2'' \<Longrightarrow> u \<noteq> ''u4'' \<Longrightarrow> requests_get ex_env u = Inr (''<html>'' @ u)"
    by (simp add: ex_env_def)
  have h: "\<And>u. html_fromstring ex_env (''<html>'' @ u) = Inr (''<html>'' @ u)"
    by (simp add: ex_env_def)
  show ?thesis
    using process_discipline_filter [of ex_env "''u1''" _ _ 1 "''jumps''" "[]" None 1, OF g h]
      process_discipline_filter [of ex_env "''u1''" _ _ 1 "''flat''" "[]" None 1, OF g h]
      process_discipline_filter [of ex_env "''u5''" _ _ 1 "''flat''" "[]" None 1, OF g h]
      process_discipline_filter [of ex_env "''u5''" _ _ 1 "''jumps''" "[]" None 1, OF g h]
      process_discipline_filter [of ex_env "''u3''" _ _ 1 "''jumps''" "[]" None 1, OF g h]
    by (simp add: new_race_def ex_env_def)
qed

text \<open>
  Claim C5. For every requested worker count, \<open>scrape_races\<close> creates its pool with
  \<open>max(1, min(10, jobs))\<close> workers; it creates the pool, and only one, exactly when the
  URL sequence is not empty and lines 99 to 121 did not raise. The retry driver passes
  \<open>max(1, min(10, jobs))\<close> to each of its sub-runs. That value lies in the interval from
  1 to 10, is the requested count when that lies in the interval, 1 below it and 10 above.
\<close>

theorem worker_count_clamped:
  "executors (trace (snd (scrape_races env as_completed race_urls folder_name file_name
                            file_extension code fields' csv_header fetch_betfair jobs fs'
                            ds))) =
     (if race_urls \<noteq> [] \<and>
         is_result (fst (prepare env fetch_betfair race_urls folder_name file_name code fs' ds))
      then [max 1 (min 10 jobs)] else []) \<and>
   (fs (args_log a) = Some content \<and>
    resolve_region (args_region a) (args_log a) = Inr (Some region) \<and> region \<noteq> [] \<and>
    extract_dates fs (args_log a) = Inr dates \<and> dates \<noteq> [] \<and> file_path_ok (args_log a) \<longrightarrow>
      map jobs_arg (subruns (trace (snd (main run a fs)))) =
        replicate (length dates) (max 1 (min 10 (args_jobs a)))) \<and>
   (1::int) \<le> max 1 (min 10 j) \<and> max 1 (min 10 j) \<le> 10 \<and>
   (1 \<le> j \<and> j \<le> 10 \<longrightarrow> max 1 (min 10 j) = j) \<and>
   (j < 1 \<longrightarrow> max 1 (min 10 j) = 1) \<and>
   (10 < j \<longrightarrow> max 1 (min 10 j) = 10)"
proof (intro conjI impI)
  show "executors (trace (snd (scrape_races env as_completed race_urls folder_name file_name
                            file_extension code fields' csv_header fetch_betfair jobs fs'
                            ds))) =
     (if race_urls \<noteq> [] \<and>
         is_result (fst (prepare env fetch_betfair race_urls folder_name file_name code fs' ds))
      then [max 1 (min 10 jobs)] else [])"
    by (rule executors_scrape_races)
next
  assume h: "fs (args_log a) = Some content \<and>
    resolve_region (args_region a) (args_log a) = Inr (Some region) \<and> region \<noteq> [] \<and>
    extract_dates fs (args_log a) = Inr dates \<and> dates \<noteq> [] \<and> file_path_ok (args_log a)"
  then have "subruns (trace (snd (main run a fs))) =
           map (\<lambda>d. \<lparr>date_arg = str_replace CHR ''-'' ''/'' d, region_arg = region,
                      jobs_arg = max 1 (min 10 (args_jobs a))\<rparr>) dates"
    by (intro main_subruns) simp_all
  then show "map jobs_arg (subruns (trace (snd (main run a fs)))) =
        replicate (length dates) (max 1 (min 10 (args_jobs a)))"
    by (simp add: comp_def map_replicate_const)
qed auto

lemma ex_prepare_2024:
  "fst (prepare ex_env False ex_urls ''2024'' ''f'' ''flat'' Map.empty {}) = Inr None"
  by code_simp

theorem worker_count_clamped_witness:
  "executors (trace (snd (scrape_races ex_env rev ex_urls ''2024'' ''f'' ''csv'' ''flat'' []
                            ''h'' False 0 Map.empty {}))) = [1] \<and>
   executors (trace (snd (scrape_races ex_env rev ex_urls ''2024'' ''f'' ''csv'' ''flat'' []
                            ''h'' False 64 Map.empty {}))) = [10] \<and>
   map jobs_arg (subruns (trace (snd (main ex_run ex_args ex_fs)))) = [10, 10]"
proof -
  have n: "ex_urls \<noteq> []" by (simp add: ex_urls_def)
  have h1: "ex_fs (args_log ex_args) = Some ex_text" by (simp add: ex_fs_def ex_args_def)
  have h4: "extract_dates ex_fs (args_log ex_args) = Inr [''2024-05-01'', ''2024-05-02'']"
    using ex_extract by (simp add: ex_args_def)
  have j: "args_jobs ex_args = 25" by (simp add: ex_args_def)
  show ?thesis
    using worker_count_clamped [of ex_env rev ex_urls "''2024''" "''f''" "''csv''" "''flat''" "[]"
        "''h''" False 0 Map.empty "{}" ex_fs ex_args ex_text "''uk''"
        "[''2024-05-01'', ''2024-05-02'']" ex_run 0]
      worker_count_clamped [of ex_env rev ex_urls "''2024''" "''f''" "''csv''" "''flat''" "[]"
        "''h''" False 64 Map.empty "{}" ex_fs ex_args ex_text "''uk''"
        "[''2024-05-01'', ''2024-05-02'']" ex_run 0]
    by (simp add: n h1 h4 j ex_region ex_ok ex_prepare_2024 is_result_def)
qed

text \<open>
  Claim C8, as amended. With an empty URL sequence no pool is created, no fetch job is
  submitted and the main pass opens no file: the only path that can be opened or written
  is that of the side-dataset artifact. The call reports that no races were found and
  returns normally whenever lines 99 to 121 do not raise, and otherwise ends with their
  exception. When enrichment is not requested or not enabled, the side dataset is not
  built, nothing is written, and the call returns normally if no regular file stands where
  the output directory is to be. When enrichment is requested and enabled, the side dataset
  is built from the empty URL sequence, because that step (lines 106 to 121) comes before
  the emptiness check (line 124); when the step does not raise, the side-dataset artifact
  holds its header and one line for each row of the side dataset.
\<close>

theorem scrape_races_empty_urls:
  "executors (trace (snd (scrape_races env as_completed [] folder_name file_name file_extension
                            code fields' csv_header fetch_betfair jobs fs ds))) = [] \<and>
   submits (trace (snd (scrape_races env as_completed [] folder_name file_name file_extension
                          code fields' csv_header fetch_betfair jobs fs ds))) = [] \<and>
   set (written_paths (trace (snd (scrape_races env as_completed [] folder_name file_name
                                     file_extension code fields' csv_header fetch_betfair jobs
                                     fs ds))))
     \<subseteq> {betfair_path folder_name code file_name} \<and>
   (\<forall>b. fst (prepare env fetch_betfair [] folder_name file_name code fs ds) = Inr b \<longrightarrow>
      fst (scrape_races env as_completed [] folder_name file_name file_extension code fields'
             csv_header fetch_betfair jobs fs ds) = Returned \<and>
      last (trace (snd (scrape_races env as_completed [] folder_name file_name file_extension
                          code fields' csv_header fetch_betfair jobs fs ds)))
        = Print NoRacesFound) \<and>
   (\<forall>e. fst (prepare env fetch_betfair [] folder_name file_name code fs ds) = Inl e \<longrightarrow>
      fst (scrape_races env as_completed [] folder_name file_name file_extension code fields'
             csv_header fetch_betfair jobs fs ds) = Uncaught e) \<and>
   (\<not> enrichment_on env fetch_betfair \<longrightarrow>
      betfair_builds (trace (snd (scrape_races env as_completed [] folder_name file_name
                                    file_extension code fields' csv_header fetch_betfair jobs
                                    fs ds))) = [] \<and>
      written_paths (trace (snd (scrape_races env as_completed [] folder_name file_name
                                   file_extension code fields' csv_header fetch_betfair jobs
                                   fs ds))) = [] \<and>
      files (snd (scrape_races env as_completed [] folder_name file_name file_extension code
                    fields' csv_header fetch_betfair jobs fs ds)) = fs \<and>
      (fs (out_dir folder_name code) = None \<and>
       (\<forall>q \<in> set (ancestors (out_dir folder_name code)). fs q = None) \<longrightarrow>
         fst (scrape_races env as_completed [] folder_name file_name file_extension code fields'
                csv_header fetch_betfair jobs fs ds) = Returned)) \<and>
   (\<forall>t b. settings_toml env = Some t \<and> fetch_betfair \<and> betfair_data t \<and>
          fst (prepare env fetch_betfair [] folder_name file_name code fs ds) = Inr b \<longrightarrow>
      (\<exists>bf. Betfair env [] = Inr bf \<and>
         betfair_builds (trace (snd (scrape_races env as_completed [] folder_name file_name
                                       file_extension code fields' csv_header fetch_betfair
                                       jobs fs ds))) = [Nil] \<and>
         files (snd (scrape_races env as_completed [] folder_name file_name file_extension
                       code fields' csv_header fetch_betfair jobs fs ds))
           (betfair_path folder_name code file_name) =
         Some (betfair_header t @ concat (map betfair_line (rows bf)))))"
proof -
  let ?S = "scrape_races env as_completed [] folder_name file_name file_extension
              code fields' csv_header fetch_betfair jobs fs ds"
  let ?w0 = "\<lparr>files = fs, trace = [], dirs = ds\<rparr>"
  obtain r w2 where pr: "prepare env fetch_betfair [] folder_name file_name code fs ds = (r, w2)"
    by (cases "prepare env fetch_betfair [] folder_name file_name code fs ds")
  from prepare_facts [OF pr] have
    pf: "executors (trace w2) = []" "submits (trace w2) = []"
      "set (written_paths (trace w2)) \<subseteq> {betfair_path folder_name code file_name}"
      "\<forall>b. r = Inr b \<longrightarrow>
         betfair_builds (trace w2) = (if enrichment_on env fetch_betfair then [Nil] else [])"
    by auto
  have S: "?S = (case r of Inl e \<Rightarrow> (Uncaught e, w2)
                 | Inr b \<Rightarrow> (Returned, emit (Print NoRacesFound) w2))"
    using pr by (simp add: scrape_races_def split: sum.splits)
  have tr: "trace (snd ?S) = trace w2 \<or> trace (snd ?S) = trace w2 @ [Print NoRacesFound]"
    unfolding S by (cases r) simp_all
  have fl: "files (snd ?S) = files w2"
    unfolding S by (cases r) simp_all
  have c1: "executors (trace (snd ?S)) = []"
    using tr pf(1) by (auto simp: executors_append) (simp add: executors_def)
  have c2: "submits (trace (snd ?S)) = []"
    using tr pf(2) by (auto simp: submits_append) (simp add: submits_def)
  have c3: "set (written_paths (trace (snd ?S))) \<subseteq> {betfair_path folder_name code file_name}"
    using tr pf(3) by (auto simp: written_paths_append) (auto simp: written_paths_def)
  have c4: "\<forall>b. fst (prepare env fetch_betfair [] folder_name file_name code fs ds) = Inr b \<longrightarrow>
      fst ?S = Returned \<and> last (trace (snd ?S)) = Print NoRacesFound"
    unfolding S using pr by (cases r) simp_all
  have c5: "\<forall>e. fst (prepare env fetch_betfair [] folder_name file_name code fs ds) = Inl e \<longrightarrow>
      fst ?S = Uncaught e"
    unfolding S using pr by (cases r) simp_all
  have c6: "\<not> enrichment_on env fetch_betfair \<longrightarrow>
      betfair_builds (trace (snd ?S)) = [] \<and> written_paths (trace (snd ?S)) = [] \<and>
      files (snd ?S) = fs \<and>
      (fs (out_dir folder_name code) = None \<and>
       (\<forall>q \<in> set (ancestors (out_dir folder_name code)). fs q = None) \<longrightarrow> fst ?S = Returned)"
  proof
    assume off: "\<not> enrichment_on env fetch_betfair"
    show "betfair_builds (trace (snd ?S)) = [] \<and> written_paths (trace (snd ?S)) = [] \<and>
      files (snd ?S) = fs \<and>
      (fs (out_dir folder_name code) = None \<and>
       (\<forall>q \<in> set (ancestors (out_dir folder_name code)). fs q = None) \<longrightarrow> fst ?S = Returned)"
    proof (cases "mkdir (out_dir folder_name code) ?w0")
      case (Inl e)
      then have "r = Inl e" "w2 = ?w0" using pr by (simp_all add: prepare_def)
      moreover have "fs (out_dir folder_name code) = None \<and>
         (\<forall>q \<in> set (ancestors (out_dir folder_name code)). fs q = None) \<longrightarrow> False"
        using Inl by (auto simp: mkdir_def split: if_splits)
      ultimately show ?thesis
        unfolding S by (auto simp: betfair_builds_def written_paths_def)
    next
      case (Inr w1)
      note w1 = mkdir_Inr [OF Inr]
      from prepare_off [OF off Inr] pr have "r = Inr None" "w2 = w1" by simp_all
      then show ?thesis
        unfolding S using w1 by (simp add: betfair_builds_def written_paths_def)
    qed
  qed
  have c7: "\<forall>t b. settings_toml env = Some t \<and> fetch_betfair \<and> betfair_data t \<and>
          fst (prepare env fetch_betfair [] folder_name file_name code fs ds) = Inr b \<longrightarrow>
      (\<exists>bf. Betfair env [] = Inr bf \<and> betfair_builds (trace (snd ?S)) = [Nil] \<and>
         files (snd ?S) (betfair_path folder_name code file_name) =
         Some (betfair_header t @ concat (map betfair_line (rows bf))))"
  proof (intro allI impI)
    fix t b
    assume h: "settings_toml env = Some t \<and> fetch_betfair \<and> betfair_data t \<and>
          fst (prepare env fetch_betfair [] folder_name file_name code fs ds) = Inr b"
    then have rb: "r = Inr b" using pr by simp
    have on: "enrichment_on env fetch_betfair" using h by (simp add: enrichment_on_def)
    from pr rb have "prepare env fetch_betfair [] folder_name file_name code fs ds = (Inr b, w2)"
      by simp
    then obtain w1 where
      bs: "betfair_step env fetch_betfair [] folder_name file_name code w1 = (Inr b, w2)"
      by (cases "mkdir (out_dir folder_name code) ?w0") (simp_all add: prepare_def)
    from betfair_step_artifact [OF _ _ _ bs, of t] h obtain bf where
      bf: "Betfair env [] = Inr bf"
        "files w2 (betfair_path folder_name code file_name) =
           Some (betfair_header t @ concat (map betfair_line (rows bf)))"
      by blast
    have bb: "betfair_builds (trace (snd ?S)) = [Nil]"
      unfolding S rb using pf(4) rb on
      by (simp add: betfair_builds_append) (simp add: betfair_builds_def)
    show "\<exists>bf. Betfair env [] = Inr bf \<and> betfair_builds (trace (snd ?S)) = [Nil] \<and>
         files (snd ?S) (betfair_path folder_name code file_name) =
         Some (betfair_header t @ concat (map betfair_line (rows bf)))"
      using bf bb fl by auto
  qed
  show ?thesis using c1 c2 c3 c4 c5 c6 c7 by blast
qed

lemma ex_prepare_empty:
  "fst (prepare ex_env True [] ''dates/uk'' ''uk-2024-05-01'' ''flat'' Map.empty {}) =
     Inr (Some \<lparr>rows = [], data = (), truthy = True\<rparr>)"
  by code_simp

theorem scrape_races_empty_urls_witness:
  "fst (scrape_races ex_env rev [] ''dates/uk'' ''uk-2024-05-01'' ''csv'' ''flat'' [] ''h'' True 6
          Map.empty {}) = Returned \<and>
   betfair_builds (trace (snd (scrape_races ex_env rev [] ''dates/uk'' ''uk-2024-05-01'' ''csv''
                                 ''flat'' [] ''h'' True 6 Map.empty {}))) = [Nil] \<and>
   files (snd (scrape_races ex_env rev [] ''dates/uk'' ''uk-2024-05-01'' ''csv'' ''flat'' [] ''h''
                 True 6 Map.empty {}))
     (betfair_path ''dates/uk'' ''flat'' ''uk-2024-05-01'') =
   Some (''date,region,off,horse,bsp'' @ newline) \<and>
   fst (scrape_races ex_env rev [] ''dates/uk'' ''uk-2024-05-01'' ''csv'' ''flat'' [] ''h'' False 6
          Map.empty {}) = Returned \<and>
   written_paths (trace (snd (scrape_races ex_env rev [] ''dates/uk'' ''uk-2024-05-01'' ''csv''
                                ''flat'' [] ''h'' False 6 Map.empty {}))) = []"
proof -
  have t: "settings_toml ex_env = Some \<lparr>betfair_data = True, betfair_fields = [''bsp'']\<rparr>"
    by (simp add: ex_env_def)
  have b: "Betfair ex_env [] = Inr \<lparr>rows = [], data = (), truthy = True\<rparr>"
    by (simp add: ex_env_def)
  have h: "betfair_header \<lparr>betfair_data = True, betfair_fields = [''bsp'']\<rparr> =
      ''date,region,off,horse,bsp'' @ newline"
    by (simp add: betfair_header_def)
  have off: "\<not> enrichment_on ex_env False" by (simp add: enrichment_on_def ex_env_def)
  from scrape_races_empty_urls [of ex_env rev "''dates/uk''" "''uk-2024-05-01''" "''csv''"
      "''flat''" "[]" "''h''" True 6 Map.empty "{}"]
    scrape_races_empty_urls [of ex_env rev "''dates/uk''" "''uk-2024-05-01''" "''csv''"
      "''flat''" "[]" "''h''" False 6 Map.empty "{}"]
  show ?thesis
    using t b off ex_prepare_empty by (simp add: h)
qed

text \<open>
  The call with an empty URL sequence and enrichment requested and enabled: the side
  dataset is built for the empty sequence and its artifact is written, header included.
\<close>

theorem empty_urls_side_dataset_built:
  "fst (scrape_races ex_env rev [] ''2024'' ''f'' ''csv'' ''flat'' [] ''h'' True 6 Map.empty {})
     = Returned \<and>
   betfair_builds (trace (snd (scrape_races ex_env rev [] ''2024'' ''f'' ''csv'' ''flat'' [] ''h''
                                 True 6 Map.empty {}))) = [Nil] \<and>
   files (snd (scrape_races ex_env rev [] ''2024'' ''f'' ''csv'' ''flat'' [] ''h'' True 6
                 Map.empty {}))
     [''..'', ''data'', ''betfair'', ''2024'', ''flat'', ''f.csv''] =
   Some (''date,region,off,horse,bsp'' @ newline)"
  by code_simp

subsection \<open>Auxiliary facts about URL discovery\<close>


























subsection \<open>Claims about URL discovery\<close>



text \<open>
  A listing that is not JSON and a results page with an empty body: neither operation
  returns a list, the exception of the decoder or the parser leaves it.
\<close>

theorem url_discovery_raises:
  "get_race_urls ex_bad_listing ex_tracks [''2023'', ''2024''] ''flat'' =
     Inl (OtherError ''JSONDecodeError'') \<and>
   get_race_urls_date ex_bad_anchors ex_courses [''2024-05-01'', ''2024-05-02''] ''gb'' =
     Inl ParserError"
  by code_simp

subsection \<open>Two retry invocations in a row\<close>

lemma main_files_backup:
  assumes "fs (args_log a) = Some content"
    and "resolve_region (args_region a) (args_log a) = Inr (Some region)" and "region \<noteq> []"
    and "extract_dates fs (args_log a) = Inr dates" and "dates \<noteq> []"
    and "file_path_ok (args_log a)"
    and "\<forall>c f. snd (run c f) (butlast (args_log a) @ [path_name (args_log a) @ ''.bak'']) =
                 f (butlast (args_log a) @ [path_name (args_log a) @ ''.bak''])"
  shows "fst (main run a fs) = Returned \<and>
         files (snd (main run a fs)) (butlast (args_log a) @ [path_name (args_log a) @ ''.bak''])
           = Some content"
proof -
  let ?b = "butlast (args_log a) @ [path_name (args_log a) @ ''.bak'']"
  let ?j = "max 1 (min 10 (args_jobs a))"
  let ?w3 = "\<lparr>files = fs(?b \<mapsto> content, args_log a \<mapsto> []),
              trace = [CopyFile (args_log a) ?b, Print (BackedUp ?b), WriteText (args_log a) []]\<rparr>"
  have m: "main run a fs = (Returned, emit (Print RetryComplete) (retry_dates run region ?j dates ?w3))"
    using assms(1-6) by (rule main_proceeds)
  have ne: "?b \<noteq> args_log a" by (rule backup_path_neq)
  have "files (retry_dates run region ?j dates ?w3) ?b = files ?w3 ?b"
    using assms(7) by (intro retry_dates_files) simp
  then show ?thesis unfolding m using ne by simp
qed

lemma ex_first_log:
  "files (snd (main ex_run ex_args ex_fs)) (args_log ex_args) =
     Some (''dates/uk/2024-05-02/foo'' @ newline)"
  by code_simp

lemma ex_second_dates:
  "extract_dates (files (snd (main ex_run ex_args ex_fs))) (args_log ex_args) = Inr [''2024-05-02'']"
  by code_simp

text \<open>
  Claim C10. Every invocation that reaches the backup step writes the backup to the same
  path, the log path with \<open>.bak\<close> appended to its name, and a file already there is
  overwritten without an error. So after two invocations in a row on the same log that
  both reach the backup step (the sub-runs leaving the backup path alone), the backup
  holds what the log held before the second invocation; what the first invocation had
  saved there is gone unless the two contents are the same.
\<close>

theorem backup_overwritten_by_next_retry:
  assumes "resolve_region (args_region a) (args_log a) = Inr (Some region)" and "region \<noteq> []"
    and "file_path_ok (args_log a)"
    and "fs0 (args_log a) = Some content0"
    and "extract_dates fs0 (args_log a) = Inr dates0" and "dates0 \<noteq> []"
    and "files (snd (main run a fs0)) (args_log a) = Some content1"
    and "extract_dates (files (snd (main run a fs0))) (args_log a) = Inr dates1"
    and "dates1 \<noteq> []"
    and "\<forall>c f. snd (run c f) (butlast (args_log a) @ [path_name (args_log a) @ ''.bak'']) =
                 f (butlast (args_log a) @ [path_name (args_log a) @ ''.bak''])"
  shows "with_suffix (args_log a) (suffix (args_log a) @ ''.bak'') =
           Inr (butlast (args_log a) @ [path_name (args_log a) @ ''.bak'']) \<and>
         files (snd (main run a fs0)) (butlast (args_log a) @ [path_name (args_log a) @ ''.bak''])
           = Some content0 \<and>
         fst (main run a (files (snd (main run a fs0)))) = Returned \<and>
         files (snd (main run a (files (snd (main run a fs0)))))
             (butlast (args_log a) @ [path_name (args_log a) @ ''.bak''])
           = Some content1 \<and>
         (content1 \<noteq> content0 \<longrightarrow>
            files (snd (main run a (files (snd (main run a fs0)))))
                (butlast (args_log a) @ [path_name (args_log a) @ ''.bak''])
              \<noteq> Some content0)"
proof -
  have 1: "files (snd (main run a fs0)) (butlast (args_log a) @ [path_name (args_log a) @ ''.bak''])
           = Some content0"
    using main_files_backup [OF assms(4) assms(1) assms(2) assms(5) assms(6) assms(3) assms(10)]
    by simp
  have 2: "fst (main run a (files (snd (main run a fs0)))) = Returned \<and>
      files (snd (main run a (files (snd (main run a fs0)))))
             (butlast (args_log a) @ [path_name (args_log a) @ ''.bak''])
           = Some content1"
    using assms(7) assms(1) assms(2) assms(8) assms(9) assms(3) assms(10)
    by (rule main_files_backup)
  show ?thesis using 1 2 with_suffix_bak [OF assms(3)] by simp
qed

theorem backup_overwritten_by_next_retry_witness:
  "files (snd (main ex_run ex_args ex_fs)) [''/'', ''data'', ''dates'', ''uk'', ''failed.log.bak'']
     = Some ex_text \<and>
   fst (main ex_run ex_args (files (snd (main ex_run ex_args ex_fs)))) = Returned \<and>
   files (snd (main ex_run ex_args (files (snd (main ex_run ex_args ex_fs)))))
       [''/'', ''data'', ''dates'', ''uk'', ''failed.log.bak'']
     = Some (''dates/uk/2024-05-02/foo'' @ newline) \<and>
   files (snd (main ex_run ex_args (files (snd (main ex_run ex_args ex_fs)))))
       [''/'', ''data'', ''dates'', ''uk'', ''failed.log.bak'']
     \<noteq> Some ex_text"
proof -
  have h1: "ex_fs (args_log ex_args) = Some ex_text" by (simp add: ex_fs_def ex_args_def)
  have h4: "extract_dates ex_fs (args_log ex_args) = Inr [''2024-05-01'', ''2024-05-02'']"
    using ex_extract by (simp add: ex_args_def)
  have b: "butlast (args_log ex_args) @ [path_name (args_log ex_args) @ ''.bak''] =
      [''/'', ''data'', ''dates'', ''uk'', ''failed.log.bak'']"
    by (simp add: ex_args_def ex_log_def path_name_def)
  have pr: "\<forall>c f. snd (ex_run c f) (butlast (args_log ex_args) @ [path_name (args_log ex_args) @ ''.bak'']) =
      f (butlast (args_log ex_args) @ [path_name (args_log ex_args) @ ''.bak''])"
    unfolding b by (simp add: ex_run_def ex_log_def)
  have ne: "''dates/uk/2024-05-02/foo'' @ newline \<noteq> ex_text"
    by (simp add: ex_text_def newline_def)
  from backup_overwritten_by_next_retry [of ex_args "''uk''" ex_fs ex_text
      "[''2024-05-01'', ''2024-05-02'']" ex_run "''dates/uk/2024-05-02/foo'' @ newline"
      "[''2024-05-02'']", OF ex_region _ ex_ok h1 h4 _ ex_first_log ex_second_dates _ pr]
  show ?thesis unfolding b using ne by simp
qed

end
